theory Spec2Isabelle
  imports Complex_Main "HOL-Library.Log_Nat"
begin

section \<open>JavaScript strings\<close>

text \<open>
  A JavaScript string is a sequence of UTF-16 code units. The model keeps the code units
  below 256 (the Latin-1 range), one \<^typ>\<open>char\<close> each; every table of the program is
  ASCII. \<open>String.prototype.toLowerCase\<close> maps \<open>A..Z\<close> and the Latin-1 capitals
  \<open>0xC0..0xDE\<close> (the multiplication sign \<open>0xD7\<close> apart) 32 code units up and leaves
  every other code unit of that range as it is.
\<close>

definition lower_char :: "char \<Rightarrow> char" where
  "lower_char c =
     (let n = (of_char c :: nat)
      in if (65 \<le> n \<and> n \<le> 90) \<or> (192 \<le> n \<and> n \<le> 222 \<and> n \<noteq> 215)
         then char_of (n + 32) else c)"

definition toLowerCase :: "string \<Rightarrow> string" where
  "toLowerCase s = map lower_char s"

text \<open>\<open>s.startsWith(t)\<close>.\<close>

definition startsWith :: "string \<Rightarrow> string \<Rightarrow> bool" where
  "startsWith s t = (take (length t) s = t)"

text \<open>\<open>s.includes(t)\<close>: \<open>t\<close> occurs in \<open>s\<close> at some position (the empty string occurs in
  every string).\<close>

fun String_includes :: "string \<Rightarrow> string \<Rightarrow> bool" where
  "String_includes [] t = (t = [])"
| "String_includes (c # s) t = (startsWith (c # s) t \<or> String_includes s t)"

text \<open>White space in the sense of \<open>\s\<close> and of \<open>trim\<close>: tab, line feed, vertical tab, form
  feed, carriage return, space and the no-break space \<open>0xA0\<close>. A line terminator, which
  \<open>.\<close> does not match, is a line feed or a carriage return.\<close>

definition is_space :: "char \<Rightarrow> bool" where
  "is_space c = (let n = (of_char c :: nat) in (9 \<le> n \<and> n \<le> 13) \<or> n = 32 \<or> n = 160)"

definition is_line_terminator :: "char \<Rightarrow> bool" where
  "is_line_terminator c = (let n = (of_char c :: nat) in n = 10 \<or> n = 13)"

definition is_digit :: "char \<Rightarrow> bool" where
  "is_digit c = (let n = (of_char c :: nat) in 48 \<le> n \<and> n \<le> 57)"

section \<open>Regular expressions\<close>

text \<open>
  The regular expressions of the program use literals, character classes, alternation,
  the greedy quantifiers \<open>*\<close>, \<open>+\<close> and \<open>?\<close>, the anchors \<open>^\<close> and \<open>$\<close> (no \<open>m\<close> flag)
  and at most one capture group. No pattern carries the \<open>g\<close> or \<open>y\<close> flag, so
  \<open>lastIndex\<close> is neither read nor written and matching is a function of the pattern
  and the subject.
\<close>

datatype cls = Dot | Space | NonSpace | Digit | OneOf string | NoneOf string

fun cls_match :: "cls \<Rightarrow> char \<Rightarrow> bool" where
  "cls_match Dot c = (\<not> is_line_terminator c)"
| "cls_match Space c = is_space c"
| "cls_match NonSpace c = (\<not> is_space c)"
| "cls_match Digit c = is_digit c"
| "cls_match (OneOf cs) c = (c \<in> set cs)"
| "cls_match (NoneOf cs) c = (c \<notin> set cs)"

datatype rx = Chr char | Cls cls | Seq rx rx | Alt rx rx | Star rx | Grp rx | Bol | Eol | Eps

text \<open>A matcher state: the position in the subject, the rest of the subject from there,
  and what group 1 has captured.\<close>

type_synonym mstate = "nat \<times> string \<times> string option"

definition st_rest :: "mstate \<Rightarrow> string" where
  "st_rest st = fst (snd st)"

text \<open>
  \<open>rx_m r st\<close> lists the states in which a match of \<open>r\<close> started in \<open>st\<close> can end, in
  the order in which the backtracking matcher of ECMAScript tries them: the left
  alternative before the right one, one more iteration of a greedy quantifier before
  none. An iteration of \<open>*\<close> that consumes nothing is rejected, as the specification's
  RepeatMatcher does.
\<close>

function rx_m :: "rx \<Rightarrow> mstate \<Rightarrow> mstate list" where
  "rx_m (Chr c) st =
     (case st of (i, s, g) \<Rightarrow>
        (case s of [] \<Rightarrow> [] | x # xs \<Rightarrow> if x = c then [(Suc i, xs, g)] else []))"
| "rx_m (Cls k) st =
     (case st of (i, s, g) \<Rightarrow>
        (case s of [] \<Rightarrow> [] | x # xs \<Rightarrow> if cls_match k x then [(Suc i, xs, g)] else []))"
| "rx_m (Seq a b) st = concat (map (rx_m b) (rx_m a st))"
| "rx_m (Alt a b) st = rx_m a st @ rx_m b st"
| "rx_m (Star a) st =
     concat (map (\<lambda>st'. if length (st_rest st') < length (st_rest st)
                          then rx_m (Star a) st' else [])
                 (rx_m a st)) @ [st]"
| "rx_m (Grp a) st =
     (case st of (i, s, g) \<Rightarrow>
        map (\<lambda>st'. (fst st', st_rest st', Some (take (fst st' - i) s))) (rx_m a st))"
| "rx_m Bol st = (if fst st = 0 then [st] else [])"
| "rx_m Eol st = (if st_rest st = [] then [st] else [])"
| "rx_m Eps st = [st]"
  by pat_completeness auto
termination
  by (relation "measures [\<lambda>(r, st). size r, \<lambda>(r, st). length (st_rest st)]") auto

text \<open>Pattern syntax: a literal, \<open>r+\<close> and \<open>r?\<close>.\<close>

fun Lit :: "string \<Rightarrow> rx" where
  "Lit [] = Eps"
| "Lit (c # cs) = Seq (Chr c) (Lit cs)"

definition Plus :: "rx \<Rightarrow> rx" where
  "Plus r = Seq r (Star r)"

definition Opt :: "rx \<Rightarrow> rx" where
  "Opt r = Alt r Eps"

text \<open>\<open>r.exec(s)\<close> without flags: the leftmost start position at which the pattern
  matches, with the first match in backtracking order there. The result is the start, the
  end and group 1; \<open>None\<close> is \<open>null\<close>.\<close>

fun rx_search :: "rx \<Rightarrow> nat \<Rightarrow> string \<Rightarrow> (nat \<times> nat \<times> string option) option" where
  "rx_search r i s =
     (case rx_m r (i, s, None) of
        st # _ \<Rightarrow> Some (i, fst st, snd (snd st))
      | [] \<Rightarrow> (case s of [] \<Rightarrow> None | _ # s' \<Rightarrow> rx_search r (Suc i) s'))"

definition RegExp_exec :: "rx \<Rightarrow> string \<Rightarrow> (nat \<times> nat \<times> string option) option" where
  "RegExp_exec r s = rx_search r 0 s"

definition RegExp_test :: "rx \<Rightarrow> string \<Rightarrow> bool" where
  "RegExp_test r s = (RegExp_exec r s \<noteq> None)"

text \<open>\<open>s.replace(r, t)\<close> for a pattern without the \<open>g\<close> flag and a replacement without
  \<open>$\<close>: the first match is replaced.\<close>

definition String_replace :: "string \<Rightarrow> rx \<Rightarrow> string \<Rightarrow> string" where
  "String_replace s r t =
     (case RegExp_exec r s of
        None \<Rightarrow> s
      | Some (i, j, g) \<Rightarrow> take i s @ t @ drop j s)"

section \<open>The category taxonomy (categories.ts)\<close>

text \<open>\<open>Object.entries\<close> and \<open>Object.keys\<close> of an object whose keys are not array indices
  follow the insertion order, which for a literal is the order of the source text: the
  object is an association list.\<close>

definition TOOL_CATEGORIES :: "(string \<times> string list) list" where
  "TOOL_CATEGORIES = [
    (''CI/CD'', [''github-actions'', ''gitlab-ci'', ''circleci'', ''jenkins'', ''travis-ci'',
       ''drone'', ''buildkite'', ''woodpecker'']),
    (''Authentication'', [''passport'', ''jsonwebtoken'', ''bcrypt'', ''bcryptjs'', ''jose'',
       ''next-auth'', ''clerk'', ''auth0'', ''firebase-auth'', ''supabase-auth'', ''lucia'',
       ''arctic'', ''oslo'', ''better-auth'', ''devise'', ''authlib'']),
    (''State Management'', [''zustand'', ''redux'', ''mobx'', ''jotai'', ''recoil'',
       ''valtio'', ''xstate'', ''pinia'', ''nanostores'', ''effector'', ''redux-toolkit'',
       ''@reduxjs/toolkit'']),
    (''ORM/Database'', [''prisma'', ''drizzle'', ''drizzle-orm'', ''sequelize'', ''typeorm'',
       ''mongoose'', ''knex'', ''kysely'', ''sqlalchemy'', ''gorm'', ''diesel'', ''sea-orm'',
       ''mikro-orm'', ''objection'', ''bookshelf'', ''activerecord'']),
    (''UI Components'', [''shadcn-ui'', ''@shadcn/ui'', ''material-ui'', ''@mui/material'',
       ''chakra-ui'', ''@chakra-ui/react'', ''ant-design'', ''antd'', ''radix-ui'',
       ''@radix-ui/react-dialog'', ''headless-ui'', ''@headlessui/react'', ''daisyui'',
       ''mantine'', ''@mantine/core'']),
    (''CSS/Styling'', [''tailwindcss'', ''styled-components'', ''@emotion/react'', ''emotion'',
       ''sass'', ''css-modules'', ''vanilla-extract'', ''linaria'', ''stitches'', ''unocss'',
       ''windicss'']),
    (''Testing'', [''jest'', ''vitest'', ''mocha'', ''pytest'', ''playwright'',
       ''@playwright/test'', ''cypress'', ''testing-library'', ''@testing-library/react'',
       ''supertest'', ''rspec'', ''nock'', ''msw'']),
    (''HTTP Client'', [''axios'', ''node-fetch'', ''undici'', ''got'', ''ky'', ''requests'',
       ''httpx'', ''reqwest'', ''superagent'', ''ofetch'']),
    (''Payments'', [''stripe'', ''@stripe/stripe-js'', ''paypal'', ''square'', ''braintree'',
       ''lemonsqueezy'', ''@lemonsqueezy/lemonsqueezy.js'']),
    (''Deployment'', [''vercel'', ''railway'', ''netlify'', ''fly-io'', ''render'',
       ''cloudflare-pages'', ''wrangler'', ''docker'', ''dockerfile'']),
    (''Observability'', [''sentry'', ''@sentry/node'', ''datadog'', ''dd-trace'', ''pino'',
       ''winston'', ''opentelemetry'', ''@opentelemetry/sdk-node'', ''newrelic'', ''bunyan'',
       ''morgan'', ''loglevel'']),
    (''Caching'', [''redis'', ''ioredis'', ''memcached'', ''keyv'', ''node-cache'',
       ''lru-cache'', ''cacheable'', ''catbox'']),
    (''Validation'', [''zod'', ''yup'', ''joi'', ''class-validator'', ''ajv'', ''valibot'',
       ''typebox'', ''@sinclair/typebox'', ''superstruct'', ''io-ts'']),
    (''API Framework'', [''express'', ''fastapi'', ''hono'', ''koa'', ''fastify'', ''nestjs'',
       ''@nestjs/core'', ''django'', ''flask'', ''gin'', ''echo'', ''fiber'', ''actix-web'',
       ''axum'', ''chi'', ''rails'', ''sinatra'']),
    (''Real-time'', [''socket.io'', ''ws'', ''pusher'', ''ably'', ''livekit'',
       ''phoenix-channels'', ''sockjs'', ''engine.io'', ''partykit'']),
    (''File Upload'', [''multer'', ''formidable'', ''busboy'', ''uploadthing'', ''filepond'',
       ''tus'', ''uppy'']),
    (''Email'', [''nodemailer'', ''resend'', ''@sendgrid/mail'', ''sendgrid'', ''ses'',
       ''postmark'', ''mailgun'', ''react-email'']),
    (''Job Queue'', [''bullmq'', ''bull'', ''celery'', ''bee-queue'', ''agenda'', ''pg-boss'',
       ''temporal'', ''sidekiq'', ''graphile-worker'']),
    (''Feature Flags'', [''launchdarkly'', ''unleash'', ''flagsmith'', ''growthbook'',
       ''@growthbook/growthbook'', ''flipt'', ''posthog'']),
    (''Package Manager'', [''npm'', ''yarn'', ''pnpm'', ''bun''])]"

text \<open>A \<open>Map\<close> keeps its keys in the order of their first insertion; \<open>set\<close> on a key that
  is present replaces the value in place.\<close>

fun Map_set :: "'k \<Rightarrow> 'v \<Rightarrow> ('k \<times> 'v) list \<Rightarrow> ('k \<times> 'v) list" where
  "Map_set k v [] = [(k, v)]"
| "Map_set k v (e # m) = (if fst e = k then (k, v) # m else e # Map_set k v m)"

definition Map_get :: "('k \<times> 'v) list \<Rightarrow> 'k \<Rightarrow> 'v option" where
  "Map_get m k = map_of m k"

text \<open>The module's initialisation loop over the taxonomy.\<close>

definition packageToCategory :: "(string \<times> string) list" where
  "packageToCategory =
     fold (\<lambda>(category, packages) m.
             fold (\<lambda>pkg m'. Map_set (toLowerCase pkg) category m') packages m)
          TOOL_CATEGORIES []"

text \<open>\<open>if (x)\<close> on a value of type \<open>string | undefined\<close>: the empty string and
  \<open>undefined\<close> are falsy.\<close>

fun truthy :: "string option \<Rightarrow> bool" where
  "truthy None = False"
| "truthy (Some s) = (s \<noteq> [])"

text \<open>The pattern \<open>/^@[^/]+\//\<close>.\<close>

definition scope_prefix_rx :: rx where
  "scope_prefix_rx =
     Seq Bol (Seq (Chr CHR ''@'') (Seq (Plus (Cls (NoneOf ''/''))) (Chr CHR ''/'')))"

text \<open>The fuzzy loop over \<open>_packageToCategory.entries()\<close>; \<open>name\<close> is already in lower
  case.\<close>

fun fuzzy_scan :: "string \<Rightarrow> (string \<times> string) list \<Rightarrow> string option" where
  "fuzzy_scan name [] = None"
| "fuzzy_scan name ((pkg, cat) # es) =
     (if String_includes name pkg \<or> String_includes pkg name then Some cat
      else fuzzy_scan name es)"

definition categorizePackage :: "string \<Rightarrow> string option" where
  "categorizePackage name =
     (let direct = Map_get packageToCategory (toLowerCase name) in
      if truthy direct then direct
      else
        let scopeless =
              (if startsWith name ''@''
               then Map_get packageToCategory
                      (toLowerCase (String_replace name scope_prefix_rx ''''))
               else None)
        in if truthy scopeless then scopeless
           else fuzzy_scan (toLowerCase name) packageToCategory)"

section \<open>Build versus buy (build-vs-buy.ts)\<close>

text \<open>Modelled from the spec: the declaration of \<open>RawEvent\<close> (collectors/types) is not among
  the sources; the spec's data model gives its fields. The program reads \<open>action\<close>,
  \<open>raw\<close> and \<open>result\<close> only. The field \<open>id\<close> is named \<open>event_id\<close> here.\<close>

record RawEvent =
  event_id :: string
  sessionId :: string
  timestamp :: int
  agent :: string
  action :: string
  raw :: string
  result :: "string option"
  exitCode :: "int option"
  cwd :: "string option"

record CustomBuildEvent =
  event :: RawEvent
  category :: string
  matchedKeywords :: "string list"
  confidence :: int

text \<open>The elements of the local array \<open>detections\<close>.\<close>

record detection =
  det_category :: string
  det_keywords :: "string list"
  det_confidence :: int

definition DOMAIN_KEYWORDS :: "(string \<times> string list) list" where
  "DOMAIN_KEYWORDS = [
    (''Authentication'', [''jwt'', ''jsonwebtoken'', ''bcrypt'', ''hash-password'',
       ''hashPassword'', ''verifyToken'', ''signToken'', ''auth-middleware'',
       ''authMiddleware'', ''login'', ''session-token'']),
    (''Caching'', [''cache'', ''ttl'', ''lru'', ''memoize'', ''invalidate-cache'',
       ''cacheKey'', ''cache-control'', ''redis-client'']),
    (''Validation'', [''validate'', ''schema'', ''sanitize'', ''parse-input'',
       ''validateInput'', ''validateBody'', ''field-validation'']),
    (''Feature Flags'', [''feature-flag'', ''featureFlag'', ''isEnabled'', ''toggle'',
       ''feature-toggle'', ''flagEnabled'']),
    (''Job Queue'', [''job-queue'', ''jobQueue'', ''enqueue'', ''dequeue'', ''worker'',
       ''processJob'', ''schedule-job'']),
    (''Real-time'', [''websocket'', ''ws-server'', ''socket'', ''onMessage'', ''broadcast'',
       ''pubsub'', ''subscribe'']),
    (''Email'', [''send-email'', ''sendEmail'', ''smtp'', ''mailer'', ''email-template'',
       ''transporter'']),
    (''File Upload'', [''upload'', ''multipart'', ''file-upload'', ''handleUpload'',
       ''parseFile'']),
    (''HTTP Client'', [''http-client'', ''httpClient'', ''fetchWrapper'', ''apiClient'',
       ''request-wrapper'']),
    (''Observability'', [''logger'', ''log-level'', ''logLevel'', ''structured-log'',
       ''tracing'', ''metrics'', ''instrumenting''])]"

definition DOMAIN_FILE_PATTERNS :: "(string \<times> rx list) list" where
  "DOMAIN_FILE_PATTERNS = [
    (''Authentication'', [Seq (Lit ''auth.ts'') Eol, Seq (Lit ''auth.js'') Eol,
       Lit ''middleware/auth'', Lit ''lib/auth'', Lit ''utils/auth'', Lit ''helpers/auth'']),
    (''Caching'', [Seq (Lit ''cache.ts'') Eol, Seq (Lit ''cache.js'') Eol, Lit ''lib/cache'',
       Lit ''utils/cache'']),
    (''Validation'', [Seq (Lit ''validator.ts'') Eol, Seq (Lit ''validator.js'') Eol,
       Seq (Lit ''validation.ts'') Eol, Seq (Lit ''validation.js'') Eol, Lit ''lib/validate'']),
    (''Feature Flags'', [Lit ''feature-flag'', Lit ''featureFlag'', Seq (Lit ''flags.ts'') Eol,
       Seq (Lit ''flags.js'') Eol]),
    (''Job Queue'', [Seq (Lit ''queue.ts'') Eol, Seq (Lit ''queue.js'') Eol,
       Seq (Lit ''worker.ts'') Eol, Seq (Lit ''worker.js'') Eol, Lit ''lib/queue'']),
    (''Real-time'', [Lit ''websocket'', Seq (Lit ''socket.ts'') Eol,
       Seq (Lit ''socket.js'') Eol, Lit ''ws-server'']),
    (''Email'', [Seq (Lit ''mailer.ts'') Eol, Seq (Lit ''mailer.js'') Eol,
       Seq (Lit ''email.ts'') Eol, Seq (Lit ''email.js'') Eol, Lit ''lib/mail'']),
    (''File Upload'', [Seq (Lit ''upload.ts'') Eol, Seq (Lit ''upload.js'') Eol,
       Lit ''lib/upload'', Lit ''middleware/upload'']),
    (''Observability'', [Seq (Lit ''logger.ts'') Eol, Seq (Lit ''logger.js'') Eol,
       Lit ''lib/logger'', Lit ''utils/logger''])]"

subsection \<open>extractPackageNames\<close>

fun Seqs :: "rx list \<Rightarrow> rx" where
  "Seqs [] = Eps"
| "Seqs [r] = r"
| "Seqs (r # rs) = Seq r (Seqs rs)"

fun Alts :: "rx list \<Rightarrow> rx" where
  "Alts [] = Eps"
| "Alts [r] = r"
| "Alts (r # rs) = Alt r (Alts rs)"

text \<open>The five patterns of \<open>installPatterns\<close>, in the order of the array:
  \<^verbatim>\<open>/(?:npm|yarn|pnpm|bun)\s+(?:install|add|i)\s+(?:--[^\s]+\s+)*(.+)/\<close>,
  \<^verbatim>\<open>/pip3?\s+install\s+(.+)/\<close>, \<^verbatim>\<open>/cargo\s+add\s+(.+)/\<close>,
  \<^verbatim>\<open>/go\s+get\s+(.+)/\<close> and \<^verbatim>\<open>/gem\s+install\s+(.+)/\<close>.\<close>

definition installPatterns :: "rx list" where
  "installPatterns = [
     Seqs [Alts [Lit ''npm'', Lit ''yarn'', Lit ''pnpm'', Lit ''bun''], Plus (Cls Space),
           Alts [Lit ''install'', Lit ''add'', Lit ''i''], Plus (Cls Space),
           Star (Seqs [Lit ''--'', Plus (Cls NonSpace), Plus (Cls Space)]),
           Grp (Plus (Cls Dot))],
     Seqs [Lit ''pip'', Opt (Chr CHR ''3''), Plus (Cls Space), Lit ''install'',
           Plus (Cls Space), Grp (Plus (Cls Dot))],
     Seqs [Lit ''cargo'', Plus (Cls Space), Lit ''add'', Plus (Cls Space),
           Grp (Plus (Cls Dot))],
     Seqs [Lit ''go'', Plus (Cls Space), Lit ''get'', Plus (Cls Space), Grp (Plus (Cls Dot))],
     Seqs [Lit ''gem'', Plus (Cls Space), Lit ''install'', Plus (Cls Space),
           Grp (Plus (Cls Dot))]]"

text \<open>\<open>s.split(/\s+/)\<close>: the pieces between the maximal runs of white space; a subject
  that starts or ends with white space has an empty first or last piece, and the empty
  subject has the one piece \<open>''\<close>.\<close>

function split_ws_go :: "string \<Rightarrow> string \<Rightarrow> string list" where
  "split_ws_go acc [] = [rev acc]"
| "split_ws_go acc (c # cs) =
     (if is_space c then rev acc # split_ws_go [] (dropWhile is_space cs)
      else split_ws_go (c # acc) cs)"
  by pat_completeness auto
termination
  by (relation "measure (\<lambda>(acc, s). length s)")
     (auto simp: le_imp_less_Suc length_dropWhile_le)

definition split_ws :: "string \<Rightarrow> string list" where
  "split_ws s = split_ws_go [] s"

text \<open>The pattern \<^verbatim>\<open>/@[^/].*$/\<close> that removes a version suffix.\<close>

definition version_suffix_rx :: rx where
  "version_suffix_rx = Seqs [Chr CHR ''@'', Cls (NoneOf ''/''), Star (Cls Dot), Eol]"

text \<open>The loop over the patterns: the first pattern that matches with a non-empty group 1
  decides.\<close>

fun extract_loop :: "rx list \<Rightarrow> string \<Rightarrow> string list" where
  "extract_loop [] command = []"
| "extract_loop (pattern # patterns) command =
     (case RegExp_exec pattern command of
        Some (i, j, Some g) \<Rightarrow>
          if g \<noteq> []
          then map (\<lambda>p. String_replace p version_suffix_rx '''')
                 (filter (\<lambda>p. \<not> startsWith p ''-'') (split_ws g))
          else extract_loop patterns command
      | _ \<Rightarrow> extract_loop patterns command)"

definition extractPackageNames :: "string \<Rightarrow> string list" where
  "extractPackageNames command = extract_loop installPatterns command"

subsection \<open>detectCustomImplementation\<close>

text \<open>The \<open>Set\<close> \<open>installedPackages\<close>, in insertion order.\<close>

definition Set_add :: "string \<Rightarrow> string list \<Rightarrow> string list" where
  "Set_add x s = (if x \<in> set s then s else s @ [x])"

definition Set_has :: "string list \<Rightarrow> string \<Rightarrow> bool" where
  "Set_has s x = (x \<in> set s)"

definition cat_key :: "string \<Rightarrow> string" where
  "cat_key c = ''__cat__'' @ c"

text \<open>The first pass: the inner loop over the packages of one command, and the loop over
  the events.\<close>

fun add_packages :: "string list \<Rightarrow> string list \<Rightarrow> string list" where
  "add_packages [] installed = installed"
| "add_packages (pkg # pkgs) installed =
     (let installed1 = Set_add (toLowerCase pkg) installed;
          cat = categorizePackage pkg
      in add_packages pkgs
           (if truthy cat then Set_add (cat_key (the cat)) installed1 else installed1))"

fun collect_installed :: "RawEvent list \<Rightarrow> string list \<Rightarrow> string list" where
  "collect_installed [] installed = installed"
| "collect_installed (e # es) installed =
     collect_installed es
       (if action e = ''bash'' then add_packages (extractPackageNames (raw e)) installed
        else installed)"

text \<open>The loop over the patterns of one category, left at the first match by \<open>break\<close>.\<close>

fun pattern_loop :: "rx list \<Rightarrow> string \<Rightarrow> string \<Rightarrow> detection list \<Rightarrow> detection list" where
  "pattern_loop [] cat filePath detections = detections"
| "pattern_loop (pattern # patterns) cat filePath detections =
     (if RegExp_test pattern filePath
      then detections @ [\<lparr>det_category = cat, det_keywords = [filePath], det_confidence = 60\<rparr>]
      else pattern_loop patterns cat filePath detections)"

fun path_loop ::
  "(string \<times> rx list) list \<Rightarrow> string list \<Rightarrow> string \<Rightarrow> detection list \<Rightarrow> detection list"
where
  "path_loop [] installed filePath detections = detections"
| "path_loop ((cat, patterns) # entries) installed filePath detections =
     path_loop entries installed filePath
       (if Set_has installed (cat_key cat) then detections
        else pattern_loop patterns cat filePath detections)"

text \<open>\<open>detections.find(d => d.category === category)\<close> followed by the update of the object
  found: the first detection of the category is changed in place.\<close>

fun merge_existing :: "string \<Rightarrow> string list \<Rightarrow> detection list \<Rightarrow> detection list option" where
  "merge_existing cat matched [] = None"
| "merge_existing cat matched (d # ds) =
     (if det_category d = cat
      then Some (d\<lparr>det_keywords := det_keywords d @ matched,
                   det_confidence := min 95 (det_confidence d + int (length matched) * 10)\<rparr> # ds)
      else map_option ((#) d) (merge_existing cat matched ds))"

text \<open>\<open>keywords.filter(kw => content.toLowerCase().includes(kw.toLowerCase()))\<close>.\<close>

definition matched_keywords :: "string \<Rightarrow> string list \<Rightarrow> string list" where
  "matched_keywords content kws =
     filter (\<lambda>kw. String_includes (toLowerCase content) (toLowerCase kw)) kws"

text \<open>The body of the loop over \<open>DOMAIN_KEYWORDS\<close> for one category, and the loop.\<close>

definition keyword_step ::
  "string \<Rightarrow> string list \<Rightarrow> string list \<Rightarrow> string \<Rightarrow> detection list \<Rightarrow> detection list"
where
  "keyword_step cat kws installed content detections =
     (if Set_has installed (cat_key cat) then detections
      else
        let matched = matched_keywords content kws
        in if length matched \<ge> 2
           then (case merge_existing cat matched detections of
                   Some detections' \<Rightarrow> detections'
                 | None \<Rightarrow>
                     detections @
                       [\<lparr>det_category = cat, det_keywords = matched,
                         det_confidence = 40 + int (length matched) * 10\<rparr>])
           else detections)"

fun keyword_loop ::
  "(string \<times> string list) list \<Rightarrow> string list \<Rightarrow> string \<Rightarrow> detection list \<Rightarrow> detection list"
where
  "keyword_loop [] installed content detections = detections"
| "keyword_loop ((cat, kws) # entries) installed content detections =
     keyword_loop entries installed content
       (keyword_step cat kws installed content detections)"

text \<open>The body of the second loop for one \<open>file_write\<close> event: \<open>event.result ?? ''\<close> is the
  content.\<close>

definition content_of :: "RawEvent \<Rightarrow> string" where
  "content_of e = (case result e of None \<Rightarrow> '''' | Some c \<Rightarrow> c)"

definition event_detections :: "string list \<Rightarrow> RawEvent \<Rightarrow> detection list" where
  "event_detections installed e =
     (let filePath = raw e;
          content = content_of e
      in keyword_loop DOMAIN_KEYWORDS installed content
           (path_loop DOMAIN_FILE_PATTERNS installed filePath []))"

definition to_result :: "RawEvent \<Rightarrow> detection \<Rightarrow> CustomBuildEvent" where
  "to_result e d =
     \<lparr>event = e, category = det_category d, matchedKeywords = det_keywords d,
      confidence = det_confidence d\<rparr>"

fun event_loop ::
  "RawEvent list \<Rightarrow> string list \<Rightarrow> CustomBuildEvent list \<Rightarrow> CustomBuildEvent list"
where
  "event_loop [] installed results = results"
| "event_loop (e # es) installed results =
     event_loop es installed
       (if action e \<noteq> ''file_write'' then results
        else results @ map (to_result e) (event_detections installed e))"

definition detectCustomImplementation :: "RawEvent list \<Rightarrow> CustomBuildEvent list" where
  "detectCustomImplementation events =
     event_loop events (collect_installed events []) []"

subsection \<open>JavaScript numbers\<close>

text \<open>
  A JavaScript number is an IEEE 754 double. A finite double is modelled by its value, a
  rational number, and an arithmetic operation gives the double nearest to the exact
  result: the significand has 53 bits, and of two doubles equally near the one with the
  even significand is taken. Overflow and underflow are not modelled: the operands of the
  summary are counts of array elements, below \<open>2\<^sup>3\<^sup>3\<close>, and their quotients and products lie
  far inside the range of the normal doubles.
\<close>

definition pow2 :: "int \<Rightarrow> rat" where
  "pow2 k = (if 0 \<le> k then 2 ^ nat k else 1 / 2 ^ nat (- k))"

text \<open>The integer nearest to \<open>m\<close>, the even one of two equally near.\<close>

definition round_half_even :: "rat \<Rightarrow> int" where
  "round_half_even m =
     (let f = \<lfloor>m\<rfloor>; d = m - of_int f
      in if d < 1 / 2 then f else if 1 / 2 < d then f + 1 else if even f then f else f + 1)"

text \<open>The exponent \<open>k\<close> with \<open>2\<^sup>k \<le> x < 2\<^sup>k\<^sup>+\<^sup>1\<close>, for a positive \<open>x\<close>: the difference of the bit
  lengths of numerator and denominator, or one less.\<close>

definition binade :: "rat \<Rightarrow> int" where
  "binade x =
     (let (p, q) = quotient_of x; e = bitlen p - bitlen q
      in if pow2 e \<le> x then e else e - 1)"

text \<open>The double nearest to \<open>x\<close>: \<open>x\<close> is scaled so that its integer part has 53 bits,
  rounded to an integer, and scaled back.\<close>

definition to_double :: "rat \<Rightarrow> rat" where
  "to_double x =
     (if x = 0 then 0
      else let s = binade \<bar>x\<bar> - 52
           in sgn x * of_int (round_half_even (\<bar>x\<bar> / pow2 s)) * pow2 s)"

text \<open>\<open>a / b\<close> for \<open>b \<noteq> 0\<close>, and \<open>a * b\<close>.\<close>

definition Number_div :: "rat \<Rightarrow> rat \<Rightarrow> rat" where
  "Number_div a b = to_double (a / b)"

definition Number_mul :: "rat \<Rightarrow> rat \<Rightarrow> rat" where
  "Number_mul a b = to_double (a * b)"

text \<open>\<open>Math.round(x)\<close>: the integer nearest to the double \<open>x\<close>, the greater one of two
  equally near. It is computed on the value of \<open>x\<close> without a rounding error.\<close>

definition Math_round :: "rat \<Rightarrow> int" where
  "Math_round x = \<lfloor>x + 1 / 2\<rfloor>"

subsection \<open>getBuildVsBuySummary\<close>

text \<open>The elements of \<open>installEvents\<close>, both fields optional, and the entries of the
  summary. The counts are lengths of arrays, integers that doubles hold exactly;
  \<open>customBuildPct\<close> is the value of a double.\<close>

record InstallEvent =
  packageName :: "string option"
  inst_category :: "string option"

record SummaryEntry =
  sum_category :: string
  installCount :: nat
  customBuildCount :: nat
  customBuildPct :: rat

text \<open>The predicate of \<open>installEvents.filter\<close> for one category.\<close>

definition install_counts_for :: "string \<Rightarrow> InstallEvent \<Rightarrow> bool" where
  "install_counts_for cat e =
     (if inst_category e = Some cat then True
      else if truthy (packageName e) then categorizePackage (the (packageName e)) = Some cat
      else False)"

fun summary_loop ::
  "string list \<Rightarrow> CustomBuildEvent list \<Rightarrow> InstallEvent list \<Rightarrow> SummaryEntry list \<Rightarrow>
   SummaryEntry list"
where
  "summary_loop [] customBuilds installEvents summary = summary"
| "summary_loop (cat # cats) customBuilds installEvents summary =
     (let customCount = length (filter (\<lambda>b. category b = cat) customBuilds);
          instCount = length (filter (install_counts_for cat) installEvents);
          total = instCount + customCount
      in summary_loop cats customBuilds installEvents
           (if total = 0 then summary
            else summary @
              [\<lparr>sum_category = cat, installCount = instCount, customBuildCount = customCount,
                customBuildPct =
                  Number_div
                    (of_int (Math_round
                               (Number_mul (Number_div (of_nat customCount) (of_nat total))
                                  10000)))
                    100\<rparr>]))"

text \<open>\<open>Array.prototype.sort\<close> with a comparator is stable: an element goes before the
  first element that the comparator does not put before it.\<close>

fun insert_by :: "('a \<Rightarrow> 'a \<Rightarrow> int) \<Rightarrow> 'a \<Rightarrow> 'a list \<Rightarrow> 'a list" where
  "insert_by cmp x [] = [x]"
| "insert_by cmp x (y # ys) = (if cmp x y \<le> 0 then x # y # ys else y # insert_by cmp x ys)"

definition Array_sort :: "('a \<Rightarrow> 'a \<Rightarrow> int) \<Rightarrow> 'a list \<Rightarrow> 'a list" where
  "Array_sort cmp xs = foldr (insert_by cmp) xs []"

definition total_count :: "SummaryEntry \<Rightarrow> nat" where
  "total_count a = installCount a + customBuildCount a"

definition getBuildVsBuySummary ::
  "CustomBuildEvent list \<Rightarrow> InstallEvent list \<Rightarrow> SummaryEntry list" where
  "getBuildVsBuySummary customBuilds installEvents =
     Array_sort (\<lambda>a b. int (total_count b) - int (total_count a))
       (summary_loop (map fst TOOL_CATEGORIES) customBuilds installEvents [])"

section \<open>The install hook (hooks/pretooluse.ts)\<close>

text \<open>
  The hook reads its input and its files as JSON. A parsed JSON value is a \<open>json\<close>, an
  object being the list of its properties, each name once; a
  file is modelled by what \<open>JSON.parse(fs.readFileSync(path))\<close> makes of it, \<open>None\<close>
  when the read or the parse throws, and \<open>writeFileSync(path, JSON.stringify(v))\<close>
  stores \<open>v\<close>: for the arrays the hook writes, parsing the written text gives the array
  back.
\<close>

datatype json = JNull | JBool bool | JNum rat | JStr string | JArr "json list"
  | JObj "(string \<times> json) list"

datatype error = TypeError | IOError

text \<open>\<open>v.k\<close> for a property name that no prototype defines: \<open>TypeError\<close> on \<open>null\<close>,
  the own property of an object, \<open>undefined\<close> (\<open>None\<close>) otherwise. \<open>v?.k\<close> is
  \<open>undefined\<close> when \<open>v\<close> is \<open>null\<close> or \<open>undefined\<close>.\<close>

fun get_prop :: "json \<Rightarrow> string \<Rightarrow> error + json option" where
  "get_prop JNull k = Inl TypeError"
| "get_prop (JObj fs) k = Inr (map_of fs k)"
| "get_prop v k = Inr None"

fun opt_prop :: "json option \<Rightarrow> string \<Rightarrow> json option" where
  "opt_prop None k = None"
| "opt_prop (Some JNull) k = None"
| "opt_prop (Some (JObj fs)) k = map_of fs k"
| "opt_prop (Some v) k = None"

fun js_truthy :: "json option \<Rightarrow> bool" where
  "js_truthy None = False"
| "js_truthy (Some JNull) = False"
| "js_truthy (Some (JBool b)) = b"
| "js_truthy (Some (JNum n)) = (n \<noteq> 0)"
| "js_truthy (Some (JStr s)) = (s \<noteq> [])"
| "js_truthy (Some v) = True"

text \<open>What the run finds outside the program. \<open>Aborted\<close> is a \<open>fetch\<close> that rejects:
  the service cannot be reached, or the 15 second timer aborts the request. A response
  carries \<open>ok\<close> and its body as \<open>response.json()\<close> parses it, any JSON value, \<open>None\<close>
  when \<open>response.json()\<close> rejects. \<open>log_fails\<close> says that \<open>decisions.jsonl\<close> cannot be
  written, which \<open>logDecision\<close> ignores.
  Modelled from the spec: the table \<open>INSTALL_PATTERNS\<close> (classifiers/types) is not among
  the sources; it is a parameter, the install-command patterns of each package manager,
  none with the \<open>g\<close> flag. Two built-ins are parameters as well: SHA-256, and for a
  string or an array \<open>v\<close> whether \<open>v > 0\<close> holds, which ECMAScript decides by
  converting \<open>v\<close> to a number.\<close>

datatype stdin_outcome = Unreadable | Unparsable | Parsed json

datatype fetch_outcome = Aborted | Response bool "json option"

record env =
  stdin :: stdin_outcome
  homedir :: string
  tmpdir :: string
  sha256_hex :: "string \<Rightarrow> string"
  INSTALL_PATTERNS :: "(string \<times> rx list) list"
  fetch_result :: fetch_outcome
  write_fails :: "string \<Rightarrow> bool"
  log_fails :: bool
  converts_to_positive :: "json \<Rightarrow> bool"

text \<open>What the run changes: the files, the lines appended to \<open>decisions.jsonl\<close> (the
  action and the package of each), and the block decisions written to the standard
  output (the evaluation each relays; the text of the card is not modelled).\<close>

record world =
  files :: "string \<Rightarrow> json option"
  decisions :: "(string \<times> string) list"
  stdout :: "json list"

definition path_join :: "string \<Rightarrow> string \<Rightarrow> string" where
  "path_join dir name = dir @ ''/'' @ name"

definition loadConfig :: "env \<Rightarrow> world \<Rightarrow> (json \<times> json) option" where
  "loadConfig en w =
     (case files w (path_join (path_join (homedir en) ''.sightglass'') ''config.json'') of
        None \<Rightarrow> None
      | Some rawc \<Rightarrow>
          let apiUrl = opt_prop (opt_prop (Some rawc) ''privacy'') ''apiUrl'';
              apiKey = opt_prop (opt_prop (Some rawc) ''privacy'') ''apiKey''
          in if js_truthy apiUrl \<and> js_truthy apiKey then Some (the apiUrl, the apiKey)
             else None)"

text \<open>\<open>crypto.createHash('sha256').update(raw)\<close> throws unless \<open>raw\<close> is a string.\<close>

definition getSessionId :: "env \<Rightarrow> json \<Rightarrow> error + string" where
  "getSessionId en hookData =
     (case get_prop hookData ''session_id'' of
        Inl err \<Rightarrow> Inl err
      | Inr sid \<Rightarrow>
          (case (if js_truthy sid then the sid else JStr ''unknown'') of
             JStr s \<Rightarrow> Inr (take 12 (sha256_hex en s))
           | _ \<Rightarrow> Inl TypeError))"

definition getAllowedPath :: "env \<Rightarrow> string \<Rightarrow> string" where
  "getAllowedPath en sid = path_join (tmpdir en) (''sightglass-allowed-'' @ sid @ ''.json'')"

definition isAlreadyAllowed :: "env \<Rightarrow> world \<Rightarrow> string \<Rightarrow> string \<Rightarrow> bool" where
  "isAlreadyAllowed en w sid pkg =
     (case files w (getAllowedPath en sid) of
        Some (JArr xs) \<Rightarrow> JStr (toLowerCase pkg) \<in> set xs
      | _ \<Rightarrow> False)"

definition markAllowed :: "env \<Rightarrow> world \<Rightarrow> string \<Rightarrow> string \<Rightarrow> error + world" where
  "markAllowed en w sid pkg =
     (let filePath = getAllowedPath en sid;
          existing = (case files w filePath of Some (JArr xs) \<Rightarrow> xs | _ \<Rightarrow> []);
          existing' = existing @ [JStr (toLowerCase pkg)]
      in if write_fails en filePath then Inl IOError
         else Inr (w\<lparr>files := (files w)(filePath := Some (JArr existing'))\<rparr>))"

text \<open>\<open>logDecision\<close> appends a line, inside a \<open>try\<close> whose \<open>catch\<close> is empty.\<close>

definition logDecision :: "env \<Rightarrow> string \<Rightarrow> string \<Rightarrow> world \<Rightarrow> world" where
  "logDecision en act pkg w =
     (if log_fails en then w else w\<lparr>decisions := decisions w @ [(act, pkg)]\<rparr>)"

subsection \<open>formatEvaluationCard\<close>

text \<open>\<open>v > 0\<close> for a JSON value or \<open>undefined\<close>: \<open>null\<close> counts as 0, \<open>true\<close> as 1,
  \<open>undefined\<close> and an object as \<open>NaN\<close>.\<close>

fun js_positive :: "env \<Rightarrow> json option \<Rightarrow> bool" where
  "js_positive en None = False"
| "js_positive en (Some JNull) = False"
| "js_positive en (Some (JBool b)) = b"
| "js_positive en (Some (JNum n)) = (0 < n)"
| "js_positive en (Some (JObj fs)) = False"
| "js_positive en (Some v) = converts_to_positive en v"

text \<open>\<open>v.length\<close> of a value that is neither \<open>null\<close> nor \<open>undefined\<close>.\<close>

fun js_length :: "json \<Rightarrow> json option" where
  "js_length (JStr s) = Some (JNum (of_nat (length s)))"
| "js_length (JArr xs) = Some (JNum (of_nat (length xs)))"
| "js_length (JObj fs) = map_of fs ''length''"
| "js_length v = None"

text \<open>
  \<open>formatEvaluationCard\<close> builds the lines of the card from the evaluation. The text is
  not modelled, only whether building it throws. Reading a property of the evaluation
  and putting a JSON value into a template string do not throw; the one place that can
  is \<^verbatim>\<open>if (evaluation.cves.length > 0) lines.push(... evaluation.cves.join(', ') ...)\<close>:
  \<open>cves.length\<close> throws when \<open>cves\<close> is \<open>undefined\<close> or \<open>null\<close>, and \<open>cves.join\<close> is a
  function for an array only.
\<close>

definition formatEvaluationCard_throws :: "env \<Rightarrow> json \<Rightarrow> bool" where
  "formatEvaluationCard_throws en evaluation =
     (case opt_prop (Some evaluation) ''cves'' of
        None \<Rightarrow> True
      | Some JNull \<Rightarrow> True
      | Some (JArr xs) \<Rightarrow> False
      | Some cves \<Rightarrow> js_positive en (js_length cves))"

subsection \<open>matchInstallCommand\<close>

record InstallMatch =
  im_packageName :: string
  packageManager :: string

text \<open>\<open>s.trim()\<close>, and the pattern \<^verbatim>\<open>/@[\^~]?[\d].*$/\<close>.\<close>

definition trim :: "string \<Rightarrow> string" where
  "trim s = rev (dropWhile is_space (rev (dropWhile is_space s)))"

definition semver_suffix_rx :: rx where
  "semver_suffix_rx =
     Seqs [Chr CHR ''@'', Opt (Cls (OneOf ''^~'')), Cls Digit, Star (Cls Dot), Eol]"

fun match_patterns :: "string \<Rightarrow> rx list \<Rightarrow> string \<Rightarrow> InstallMatch option" where
  "match_patterns manager [] command = None"
| "match_patterns manager (pattern # patterns) command =
     (case RegExp_exec pattern command of
        Some (i, j, Some g) \<Rightarrow>
          if g \<noteq> []
          then (case filter (\<lambda>p. \<not> startsWith p ''-'') (split_ws (trim g)) of
                  [] \<Rightarrow> match_patterns manager patterns command
                | p # ps \<Rightarrow>
                    if p \<noteq> []
                    then Some \<lparr>im_packageName = String_replace p semver_suffix_rx '''',
                               packageManager = manager\<rparr>
                    else match_patterns manager patterns command)
          else match_patterns manager patterns command
      | _ \<Rightarrow> match_patterns manager patterns command)"

fun match_managers :: "(string \<times> rx list) list \<Rightarrow> string \<Rightarrow> InstallMatch option" where
  "match_managers [] command = None"
| "match_managers ((manager, patterns) # entries) command =
     (case match_patterns manager patterns command of
        Some m \<Rightarrow> Some m
      | None \<Rightarrow> match_managers entries command)"

definition matchInstallCommand :: "env \<Rightarrow> string \<Rightarrow> InstallMatch option" where
  "matchInstallCommand en command = match_managers (INSTALL_PATTERNS en) command"

subsection \<open>main\<close>

text \<open>The \<open>try\<close> block around the call of the service, entered when there is a
  configuration. The result is the exit code of a \<open>process.exit\<close> inside the block, or
  \<open>None\<close> when the block is left (a response that is not \<open>ok\<close>, or an exception caught
  by the empty \<open>catch\<close>), with the world as the block leaves it: \<open>markAllowed\<close> and
  \<open>logDecision\<close> have run when \<open>formatEvaluationCard\<close> throws.\<close>

definition call_api ::
  "env \<Rightarrow> world \<Rightarrow> string \<Rightarrow> InstallMatch \<Rightarrow> nat option \<times> world" where
  "call_api en w sid m =
     (case fetch_result en of
        Aborted \<Rightarrow> (None, w)
      | Response ok body \<Rightarrow>
          if \<not> ok then (None, w)
          else (case body of
                  None \<Rightarrow> (None, w)
                | Some evaluation \<Rightarrow>
                    (case get_prop evaluation ''verdict'' of
                       Inl err \<Rightarrow> (None, w)
                     | Inr verdict \<Rightarrow>
                         if verdict = Some (JStr ''PROCEED'')
                         then (Some 0, logDecision en ''allowed'' (im_packageName m) w)
                         else (case markAllowed en w sid (im_packageName m) of
                                 Inl err \<Rightarrow> (None, w)
                               | Inr w1 \<Rightarrow>
                                   let w2 = logDecision en ''blocked'' (im_packageName m) w1
                                   in if formatEvaluationCard_throws en evaluation
                                      then (None, w2)
                                      else (Some 2, w2\<lparr>stdout := stdout w2 @ [evaluation]\<rparr>)))))"

text \<open>The body of \<open>main\<close> after the input is parsed. \<open>Inl\<close> is an exception that leaves
  \<open>main\<close>: it is thrown before anything is written. A command that is truthy and not a
  string has no method \<open>match\<close>, so that \<open>matchInstallCommand\<close> throws at the first
  pattern it tries.\<close>

definition main_parsed :: "env \<Rightarrow> world \<Rightarrow> json \<Rightarrow> error + (nat \<times> world)" where
  "main_parsed en w hookData =
     (case get_prop hookData ''tool_name'' of
        Inl err \<Rightarrow> Inl err
      | Inr tool_name \<Rightarrow>
          if tool_name \<noteq> Some (JStr ''Bash'') then Inr (0, w)
          else
            let command = opt_prop (opt_prop (Some hookData) ''tool_input'') ''command''
            in if \<not> js_truthy command then Inr (0, w)
               else (case the command of
                       JStr c \<Rightarrow>
                         (case matchInstallCommand en c of
                            None \<Rightarrow> Inr (0, w)
                          | Some m \<Rightarrow>
                              (case getSessionId en hookData of
                                 Inl err \<Rightarrow> Inl err
                               | Inr sid \<Rightarrow>
                                   if isAlreadyAllowed en w sid (im_packageName m)
                                   then Inr (0, logDecision en ''allowed_retry''
                                                  (im_packageName m) w)
                                   else
                                     (case (if loadConfig en w = None then (None, w)
                                            else call_api en w sid m) of
                                        (Some code, w') \<Rightarrow> Inr (code, w')
                                      | (None, w') \<Rightarrow>
                                          Inr (0, logDecision en ''allowed_no_api''
                                                    (im_packageName m) w'))))
                     | _ \<Rightarrow>
                         if concat (map snd (INSTALL_PATTERNS en)) = [] then Inr (0, w)
                         else Inl TypeError))"

text \<open>\<open>main().catch(() => process.exit(0))\<close>: the exit code and the world the run leaves.\<close>

definition main :: "env \<Rightarrow> world \<Rightarrow> nat \<times> world" where
  "main en w =
     (case stdin en of
        Unreadable \<Rightarrow> (0, w)
      | Unparsable \<Rightarrow> (0, w)
      | Parsed hookData \<Rightarrow>
          (case main_parsed en w hookData of
             Inl err \<Rightarrow> (0, w)
           | Inr r \<Rightarrow> r))"

text \<open>A run to try the properties on: an \<open>npm install\<close> of \<open>left-pad\<close>, a configuration
  with the address and the key of the service, and a service that answers \<open>SWITCH\<close>.\<close>

definition sample_env :: env where
  "sample_env =
     \<lparr>stdin =
        Parsed (JObj [(''tool_name'', JStr ''Bash''),
                      (''tool_input'', JObj [(''command'', JStr ''npm install Left-Pad@1.3.0'')]),
                      (''session_id'', JStr ''session-1'')]),
      homedir = ''/home/dev'', tmpdir = ''/tmp'',
      sha256_hex = (\<lambda>s. ''0f1e2d3c4b5a69788796'' @ s),
      INSTALL_PATTERNS = [(''npm'', [hd installPatterns])],
      fetch_result =
        Response True
          (Some (JObj [(''packageName'', JStr ''Left-Pad''), (''verdict'', JStr ''SWITCH''),
                       (''status'', JStr ''deprecated''), (''cves'', JArr []),
                       (''size'', JStr ''unknown''), (''alternative'', JNull),
                       (''summary'', JStr ''deprecated by its author'')])),
      write_fails = (\<lambda>p. False), log_fails = False,
      converts_to_positive = (\<lambda>v. False)\<rparr>"

definition sample_world :: world where
  "sample_world =
     \<lparr>files =
        (\<lambda>p. if p = ''/home/dev/.sightglass/config.json''
             then Some (JObj [(''privacy'', JObj [(''apiUrl'', JStr ''https://sightglass.dev''),
                                                 (''apiKey'', JStr ''key'')])])
             else None),
      decisions = [], stdout = []\<rparr>"

section \<open>The categorizer as the specification words it\<close>

text \<open>The known package names with their categories, in the iteration order of the
  taxonomy.\<close>

definition pairs_of ::
  "(string \<Rightarrow> string) \<Rightarrow> (string \<times> string list) list \<Rightarrow> (string \<times> string) list" where
  "pairs_of f T = concat (map (\<lambda>(c, ps). map (\<lambda>p. (f p, c)) ps) T)"

definition known_packages :: "(string \<times> string) list" where
  "known_packages = pairs_of (\<lambda>p. p) TOOL_CATEGORIES"

text \<open>Rule 1: the exact match, ignoring case, in the reverse index.\<close>

definition spec_exact :: "string \<Rightarrow> string option" where
  "spec_exact name =
     map_option snd (find (\<lambda>(p, c). toLowerCase p = toLowerCase name) known_packages)"

text \<open>Rule 2: a name \<open>@scope/pkg\<close>, with a scope that is not empty, loses \<open>@scope/\<close>.\<close>

definition spec_strip_scope :: "string \<Rightarrow> string option" where
  "spec_strip_scope name =
     (case name of
        [] \<Rightarrow> None
      | c # rest \<Rightarrow>
          if c = CHR ''@'' \<and> takeWhile (\<lambda>x. x \<noteq> CHR ''/'') rest \<noteq> []
             \<and> dropWhile (\<lambda>x. x \<noteq> CHR ''/'') rest \<noteq> []
          then Some (tl (dropWhile (\<lambda>x. x \<noteq> CHR ''/'') rest))
          else None)"

text \<open>Rule 3: the first known package such that one of the two names, in lower case,
  contains the other.\<close>

definition spec_fuzzy :: "string \<Rightarrow> string option" where
  "spec_fuzzy name =
     map_option snd
       (find (\<lambda>(p, c). String_includes (toLowerCase name) (toLowerCase p)
                       \<or> String_includes (toLowerCase p) (toLowerCase name))
          known_packages)"

definition categorize_spec :: "string \<Rightarrow> string option" where
  "categorize_spec name =
     (case spec_exact name of
        Some c \<Rightarrow> Some c
      | None \<Rightarrow>
          (case (case spec_strip_scope name of Some n \<Rightarrow> spec_exact n | None \<Rightarrow> None) of
             Some c \<Rightarrow> Some c
           | None \<Rightarrow> spec_fuzzy name))"

section \<open>Notions used to state the properties\<close>

text \<open>The detections of one category, and whether some pattern of a list matches a
  path.\<close>

definition of_cat :: "string \<Rightarrow> detection list \<Rightarrow> detection list" where
  "of_cat cat ds = filter (\<lambda>d. det_category d = cat) ds"

definition some_pattern_matches :: "rx list \<Rightarrow> string \<Rightarrow> bool" where
  "some_pattern_matches ps filePath = list_ex (\<lambda>p. RegExp_test p filePath) ps"

text \<open>What the keyword step of a category makes of the detections of that category.\<close>

definition keyword_effect ::
  "string \<Rightarrow> string list \<Rightarrow> string list \<Rightarrow> string \<Rightarrow> detection list \<Rightarrow> detection list"
where
  "keyword_effect cat kws installed content ds =
     (if \<not> Set_has installed (cat_key cat) \<and> 2 \<le> length (matched_keywords content kws)
      then (case ds of
              [] \<Rightarrow>
                [\<lparr>det_category = cat, det_keywords = matched_keywords content kws,
                  det_confidence = 40 + int (length (matched_keywords content kws)) * 10\<rparr>]
            | d # ds' \<Rightarrow>
                d\<lparr>det_keywords := det_keywords d @ matched_keywords content kws,
                  det_confidence :=
                    min 95 (det_confidence d + int (length (matched_keywords content kws)) * 10)\<rparr>
                # ds')
      else ds)"

text \<open>What the path loop finds for a category.\<close>

definition path_effect :: "string \<Rightarrow> rx list \<Rightarrow> string list \<Rightarrow> string \<Rightarrow> detection list" where
  "path_effect cat ps installed filePath =
     (if \<not> Set_has installed (cat_key cat) \<and> some_pattern_matches ps filePath
      then [\<lparr>det_category = cat, det_keywords = [filePath], det_confidence = 60\<rparr>]
      else [])"

text \<open>A result without the event it points to.\<close>

definition finding :: "CustomBuildEvent \<Rightarrow> string \<times> string list \<times> int" where
  "finding r = (category r, matchedKeywords r, confidence r)"

text \<open>Two events to try the properties on: a file write and a shell command.\<close>

definition write_event :: "string \<Rightarrow> string option \<Rightarrow> RawEvent" where
  "write_event path content =
     \<lparr>event_id = ''w1'', sessionId = ''s1'', timestamp = 1, agent = ''claude-code'',
      action = ''file_write'', raw = path, result = content, exitCode = None, cwd = None\<rparr>"

definition bash_event :: "string \<Rightarrow> RawEvent" where
  "bash_event command =
     \<lparr>event_id = ''b1'', sessionId = ''s1'', timestamp = 2, agent = ''claude-code'',
      action = ''bash'', raw = command, result = None, exitCode = Some 0, cwd = None\<rparr>"

text \<open>The counts of one category and the entry that the loop pushes for it.\<close>

definition custom_count :: "CustomBuildEvent list \<Rightarrow> string \<Rightarrow> nat" where
  "custom_count customBuilds cat = length (filter (\<lambda>b. category b = cat) customBuilds)"

definition install_count :: "InstallEvent list \<Rightarrow> string \<Rightarrow> nat" where
  "install_count installEvents cat = length (filter (install_counts_for cat) installEvents)"

definition summary_entry :: "CustomBuildEvent list \<Rightarrow> InstallEvent list \<Rightarrow> string \<Rightarrow> SummaryEntry" where
  "summary_entry customBuilds installEvents cat =
     \<lparr>sum_category = cat,
      installCount = install_count installEvents cat,
      customBuildCount = custom_count customBuilds cat,
      customBuildPct =
        Number_div
          (of_int (Math_round
                     (Number_mul
                        (Number_div (of_nat (custom_count customBuilds cat))
                           (of_nat (install_count installEvents cat
                                    + custom_count customBuilds cat)))
                        10000)))
          100\<rparr>"

text \<open>The share of the custom builds in percent, an exact rational; rounding to two
  decimals, half up, as the specification words it; and whether a number lies exactly
  halfway between two consecutive integers.\<close>

definition percentage :: "nat \<Rightarrow> nat \<Rightarrow> rat" where
  "percentage customCount n = of_nat customCount / of_nat n * 100"

definition round_2_decimals :: "rat \<Rightarrow> rat" where
  "round_2_decimals x = of_int \<lfloor>x * 100 + 1 / 2\<rfloor> / 100"

definition halfway :: "rat \<Rightarrow> bool" where
  "halfway x = (x = of_int \<lfloor>x\<rfloor> + 1 / 2)"

text \<open>A custom build of a category, to try the summary on.\<close>

definition custom_build :: "string \<Rightarrow> CustomBuildEvent" where
  "custom_build cat =
     \<lparr>event = write_event ''src/auth.ts'' None, category = cat,
      matchedKeywords = [''src/auth.ts''], confidence = 60\<rparr>"

section \<open>The state of the modules\<close>

text \<open>
  The functions above pass no state: they are what the code computes when the objects of
  the modules are as the module bodies leave them. This section makes that state
  explicit. A \<open>RegExp\<close> object carries \<open>lastIndex\<close>, which \<open>exec\<close> and \<open>test\<close> read and
  write when the pattern has the \<open>g\<close> or the \<open>y\<close> flag (RegExpBuiltinExec of ECMAScript):
  the search starts at \<open>lastIndex\<close>, a match stores its end there, a failure stores 0.
  Without these flags the search starts at 0 and \<open>lastIndex\<close> is left alone.
\<close>

record RegExp =
  re_source :: rx
  re_global :: bool
  re_sticky :: bool
  lastIndex :: nat

definition RegExp_exec_st ::
  "RegExp \<Rightarrow> string \<Rightarrow> (nat \<times> nat \<times> string option) option \<times> RegExp" where
  "RegExp_exec_st R S =
     (let flagged = (re_global R \<or> re_sticky R);
          start = (if flagged then lastIndex R else 0)
      in if length S < start then (None, if flagged then R\<lparr>lastIndex := 0\<rparr> else R)
         else
           (case (if re_sticky R
                  then (case rx_m (re_source R) (start, drop start S, None) of
                          st # _ \<Rightarrow> Some (start, fst st, snd (snd st))
                        | [] \<Rightarrow> None)
                  else rx_search (re_source R) start (drop start S)) of
              None \<Rightarrow> (None, if flagged then R\<lparr>lastIndex := 0\<rparr> else R)
            | Some m \<Rightarrow> (Some m, if flagged then R\<lparr>lastIndex := fst (snd m)\<rparr> else R)))"

definition RegExp_test_st :: "RegExp \<Rightarrow> string \<Rightarrow> bool \<times> RegExp" where
  "RegExp_test_st R S = (case RegExp_exec_st R S of (m, R') \<Rightarrow> (m \<noteq> None, R'))"

text \<open>
  The objects that outlive a call are the \<open>Map\<close> \<open>_packageToCategory\<close> of categories.ts
  and the \<open>RegExp\<close> objects of \<open>DOMAIN_FILE_PATTERNS\<close> of build-vs-buy.ts (the keyword
  arrays are only read with \<open>filter\<close>, which makes a new array; the patterns written
  inside \<open>extractPackageNames\<close> and \<open>categorizePackage\<close> are literals, evaluated to a new
  object at each call). After the module bodies have run, the map holds the reverse
  index and every pattern is as its literal says: no flag, \<open>lastIndex\<close> 0.
\<close>

record module_state =
  packageMap :: "(string \<times> string) list"
  filePatterns :: "(string \<times> RegExp list) list"

definition initial_state :: module_state where
  "initial_state =
     \<lparr>packageMap = packageToCategory,
      filePatterns =
        map (\<lambda>(cat, ps).
               (cat, map (\<lambda>p. \<lparr>re_source = p, re_global = False, re_sticky = False,
                                 lastIndex = 0\<rparr>) ps))
            DOMAIN_FILE_PATTERNS\<rparr>"

text \<open>\<open>categorizePackage\<close> on the map of the state: it calls \<open>get\<close> and \<open>entries\<close> only.\<close>

definition categorizePackage_in :: "(string \<times> string) list \<Rightarrow> string \<Rightarrow> string option" where
  "categorizePackage_in m name =
     (let direct = Map_get m (toLowerCase name) in
      if truthy direct then direct
      else
        let scopeless =
              (if startsWith name ''@''
               then Map_get m (toLowerCase (String_replace name scope_prefix_rx ''''))
               else None)
        in if truthy scopeless then scopeless
           else fuzzy_scan (toLowerCase name) m)"

definition categorizePackage_st :: "module_state \<Rightarrow> string \<Rightarrow> string option \<times> module_state" where
  "categorizePackage_st \<sigma> name = (categorizePackage_in (packageMap \<sigma>) name, \<sigma>)"

text \<open>\<open>detectCustomImplementation\<close> on the state: the first pass reads the map through
  \<open>categorizePackage\<close>, the path loop calls \<open>test\<close> on the pattern objects.\<close>

fun add_packages_in ::
  "(string \<times> string) list \<Rightarrow> string list \<Rightarrow> string list \<Rightarrow> string list" where
  "add_packages_in m [] installed = installed"
| "add_packages_in m (pkg # pkgs) installed =
     (let installed1 = Set_add (toLowerCase pkg) installed;
          cat = categorizePackage_in m pkg
      in add_packages_in m pkgs
           (if truthy cat then Set_add (cat_key (the cat)) installed1 else installed1))"

fun collect_installed_in ::
  "(string \<times> string) list \<Rightarrow> RawEvent list \<Rightarrow> string list \<Rightarrow> string list" where
  "collect_installed_in m [] installed = installed"
| "collect_installed_in m (e # es) installed =
     collect_installed_in m es
       (if action e = ''bash'' then add_packages_in m (extractPackageNames (raw e)) installed
        else installed)"

fun pattern_loop_st ::
  "RegExp list \<Rightarrow> string \<Rightarrow> string \<Rightarrow> detection list \<Rightarrow> detection list \<times> RegExp list" where
  "pattern_loop_st [] cat filePath detections = (detections, [])"
| "pattern_loop_st (R # Rs) cat filePath detections =
     (case RegExp_test_st R filePath of
        (hit, R') \<Rightarrow>
          if hit
          then (detections @
                  [\<lparr>det_category = cat, det_keywords = [filePath], det_confidence = 60\<rparr>],
                R' # Rs)
          else (case pattern_loop_st Rs cat filePath detections of
                  (detections', Rs') \<Rightarrow> (detections', R' # Rs')))"

fun path_loop_st ::
  "(string \<times> RegExp list) list \<Rightarrow> string list \<Rightarrow> string \<Rightarrow> detection list \<Rightarrow>
   detection list \<times> (string \<times> RegExp list) list"
where
  "path_loop_st [] installed filePath detections = (detections, [])"
| "path_loop_st ((cat, Rs) # entries) installed filePath detections =
     (case (if Set_has installed (cat_key cat) then (detections, Rs)
            else pattern_loop_st Rs cat filePath detections) of
        (detections1, Rs1) \<Rightarrow>
          (case path_loop_st entries installed filePath detections1 of
             (detections2, entries') \<Rightarrow> (detections2, (cat, Rs1) # entries')))"

fun event_loop_st ::
  "RawEvent list \<Rightarrow> string list \<Rightarrow> CustomBuildEvent list \<Rightarrow> (string \<times> RegExp list) list \<Rightarrow>
   CustomBuildEvent list \<times> (string \<times> RegExp list) list"
where
  "event_loop_st [] installed results patterns = (results, patterns)"
| "event_loop_st (e # es) installed results patterns =
     (if action e \<noteq> ''file_write'' then event_loop_st es installed results patterns
      else (case path_loop_st patterns installed (raw e) [] of
              (found, patterns') \<Rightarrow>
                event_loop_st es installed
                  (results @
                     map (to_result e)
                       (keyword_loop DOMAIN_KEYWORDS installed (content_of e) found))
                  patterns'))"

definition detectCustomImplementation_st ::
  "module_state \<Rightarrow> RawEvent list \<Rightarrow> CustomBuildEvent list \<times> module_state" where
  "detectCustomImplementation_st \<sigma> events =
     (case event_loop_st events (collect_installed_in (packageMap \<sigma>) events []) []
             (filePatterns \<sigma>) of
        (results, patterns') \<Rightarrow> (results, \<sigma>\<lparr>filePatterns := patterns'\<rparr>))"

section \<open>The operations on values of any type\<close>

text \<open>
  The types of TypeScript are erased at run time: a caller can pass any value where a
  string is declared, or leave a field out. Here such a value is a JSON value, or
  \<open>undefined\<close> (\<open>None\<close>). A method call \<open>v.m(...)\<close> throws a \<open>TypeError\<close> when \<open>v\<close> is
  \<open>undefined\<close> or \<open>null\<close>, and also when \<open>v\<close> is a number, a boolean, an array or an
  object of JSON, none of which has a method \<open>toLowerCase\<close> or \<open>match\<close>.
  The first thing \<open>categorizePackage\<close> does is \<open>name.toLowerCase()\<close>, and the first
  thing \<open>extractPackageNames\<close> does is \<open>command.match(pattern)\<close>.
\<close>

definition categorizePackage_any :: "json option \<Rightarrow> error + string option" where
  "categorizePackage_any v =
     (case v of Some (JStr name) \<Rightarrow> Inr (categorizePackage name) | _ \<Rightarrow> Inl TypeError)"

definition extractPackageNames_any :: "json option \<Rightarrow> error + string list" where
  "extractPackageNames_any v =
     (case v of Some (JStr command) \<Rightarrow> Inr (extractPackageNames command) | _ \<Rightarrow> Inl TypeError)"

text \<open>An event as the detector meets it: any value for \<open>action\<close> and \<open>result\<close>, a string
  or nothing for \<open>raw\<close>. A missing \<open>raw\<close> is \<open>undefined\<close>, which \<open>pattern.test\<close> reads as
  the string \<open>undefined\<close>.\<close>

record AnyEvent =
  any_action :: "json option"
  any_raw :: "string option"
  any_result :: "json option"

text \<open>\<open>event.result ?? ''\<close> when that is a string; \<open>None\<close> when it is another value, on
  which \<open>content.toLowerCase()\<close> throws.\<close>

definition content_any :: "json option \<Rightarrow> string option" where
  "content_any v =
     (case v of
        None \<Rightarrow> Some ''''
      | Some JNull \<Rightarrow> Some ''''
      | Some (JStr s) \<Rightarrow> Some s
      | Some _ \<Rightarrow> None)"

fun collect_installed_any :: "AnyEvent list \<Rightarrow> string list \<Rightarrow> error + string list" where
  "collect_installed_any [] installed = Inr installed"
| "collect_installed_any (e # es) installed =
     (if any_action e = Some (JStr ''bash'')
      then (case any_raw e of
              None \<Rightarrow> Inl TypeError
            | Some command \<Rightarrow>
                collect_installed_any es (add_packages (extractPackageNames command) installed))
      else collect_installed_any es installed)"

text \<open>The keyword loop: with a content that is not a string, the callback of \<open>filter\<close>
  throws at the first keyword of the first category that is not suppressed.\<close>

definition keyword_loop_any ::
  "string list \<Rightarrow> string option \<Rightarrow> detection list \<Rightarrow> error + detection list" where
  "keyword_loop_any installed content detections =
     (case content of
        Some c \<Rightarrow> Inr (keyword_loop DOMAIN_KEYWORDS installed c detections)
      | None \<Rightarrow>
          if list_ex (\<lambda>(cat, kws). \<not> Set_has installed (cat_key cat) \<and> kws \<noteq> [])
               DOMAIN_KEYWORDS
          then Inl TypeError else Inr detections)"

fun event_loop_any ::
  "AnyEvent list \<Rightarrow> string list \<Rightarrow> (string \<times> string list \<times> int) list \<Rightarrow>
   error + (string \<times> string list \<times> int) list"
where
  "event_loop_any [] installed results = Inr results"
| "event_loop_any (e # es) installed results =
     (if any_action e \<noteq> Some (JStr ''file_write'') then event_loop_any es installed results
      else
        (case keyword_loop_any installed (content_any (any_result e))
                (path_loop DOMAIN_FILE_PATTERNS installed
                   (case any_raw e of Some p \<Rightarrow> p | None \<Rightarrow> ''undefined'') []) of
           Inl err \<Rightarrow> Inl err
         | Inr detections \<Rightarrow>
             event_loop_any es installed
               (results @
                  map (\<lambda>d. (det_category d, det_keywords d, det_confidence d)) detections)))"

text \<open>The findings of \<open>detectCustomImplementation\<close>, or the exception that leaves it.\<close>

definition detectCustomImplementation_any ::
  "AnyEvent list \<Rightarrow> error + (string \<times> string list \<times> int) list" where
  "detectCustomImplementation_any events =
     (case collect_installed_any events [] of
        Inl err \<Rightarrow> Inl err
      | Inr installed \<Rightarrow> event_loop_any events installed [])"

text \<open>An event of the declared type, as a value.\<close>

definition as_any :: "RawEvent \<Rightarrow> AnyEvent" where
  "as_any e =
     \<lparr>any_action = Some (JStr (action e)), any_raw = Some (raw e),
      any_result = map_option JStr (result e)\<rparr>"

section \<open>Properties of the categorizer\<close>

subsection \<open>The reverse index\<close>

declare rx_m.simps(5) [simp del]

lemma Map_set_fresh: "k \<notin> fst ` set m \<Longrightarrow> Map_set k v m = m @ [(k, v)]"
  by (induction m) auto

lemma fold_Map_set_fresh:
  "distinct (map fst m @ map f ps) \<Longrightarrow>
   fold (\<lambda>pkg m'. Map_set (f pkg) c m') ps m = m @ map (\<lambda>p. (f p, c)) ps"
proof (induction ps arbitrary: m)
  case Nil
  then show ?case by simp
next
  case (Cons p ps)
  have fresh: "f p \<notin> fst ` set m" using Cons.prems by auto
  have "distinct (map fst (m @ [(f p, c)]) @ map f ps)" using Cons.prems by auto
  from Cons.IH [OF this] show ?case by (simp add: Map_set_fresh [OF fresh])
qed

lemma fold_taxonomy:
  "distinct (map fst m @ map f (concat (map snd T))) \<Longrightarrow>
   fold (\<lambda>(c, ps) m. fold (\<lambda>pkg m'. Map_set (f pkg) c m') ps m) T m = m @ pairs_of f T"
proof (induction T arbitrary: m)
  case Nil
  then show ?case by (simp add: pairs_of_def)
next
  case (Cons e T)
  obtain c ps where e: "e = (c, ps)" by (cases e)
  have d1: "distinct (map fst m @ map f ps)" using Cons.prems e by auto
  have d2: "distinct (map fst (m @ map (\<lambda>p. (f p, c)) ps) @ map f (concat (map snd T)))"
    using Cons.prems e by (auto simp: comp_def)
  show ?case using Cons.IH [OF d2] by (simp add: e fold_Map_set_fresh [OF d1] pairs_of_def)
qed

lemma names_lower: "map toLowerCase (concat (map snd TOOL_CATEGORIES)) = concat (map snd TOOL_CATEGORIES)"
  by (simp add: TOOL_CATEGORIES_def toLowerCase_def lower_char_def)

lemma names_distinct: "distinct (concat (map snd TOOL_CATEGORIES))"
  by (simp add: TOOL_CATEGORIES_def)

lemma pairs_of_map: "pairs_of f T = map (\<lambda>(p, c). (f p, c)) (pairs_of (\<lambda>p. p) T)"
  by (induction T) (auto simp: pairs_of_def)

lemma pairs_of_names: "map fst (pairs_of f T) = map f (concat (map snd T))"
  by (induction T) (auto simp: pairs_of_def comp_def)

lemma packageToCategory_pairs: "packageToCategory = pairs_of toLowerCase TOOL_CATEGORIES"
  unfolding packageToCategory_def
  using fold_taxonomy [of "[]" toLowerCase TOOL_CATEGORIES] names_lower names_distinct by simp

lemma packageToCategory_known [code]: "packageToCategory = known_packages"
proof -
  have "map fst (pairs_of toLowerCase TOOL_CATEGORIES) = map fst (pairs_of (\<lambda>p. p) TOOL_CATEGORIES)"
    by (simp add: pairs_of_names names_lower)
  moreover have "map snd (pairs_of toLowerCase TOOL_CATEGORIES) = map snd (pairs_of (\<lambda>p. p) TOOL_CATEGORIES)"
    by (subst pairs_of_map) (simp add: comp_def case_prod_beta)
  ultimately have "pairs_of toLowerCase TOOL_CATEGORIES = pairs_of (\<lambda>p. p) TOOL_CATEGORIES"
    by (metis zip_map_fst_snd)
  then show ?thesis by (simp add: packageToCategory_pairs known_packages_def)
qed

subsection \<open>The scope pattern\<close>

declare rx_search.simps [simp del]

lemma star_cls_nil: "rx_m (Star (Cls k)) (i, [], g) = [(i, [], g)]"
  by (subst rx_m.simps(5)) simp

lemma star_cls_step:
  "rx_m (Star (Cls k)) (i, x # xs, g) =
     (if cls_match k x then rx_m (Star (Cls k)) (Suc i, xs, g) else []) @ [(i, x # xs, g)]"
  by (subst rx_m.simps(5)) (simp add: st_rest_def)

lemma star_cls_then_chr:
  assumes "\<not> cls_match k c"
  shows "concat (map (rx_m (Chr c)) (rx_m (Star (Cls k)) (i, s, g))) =
     (if dropWhile (cls_match k) s \<noteq> [] \<and> hd (dropWhile (cls_match k) s) = c
      then [(Suc (i + length (takeWhile (cls_match k) s)), tl (dropWhile (cls_match k) s), g)]
      else [])"
proof (induction s arbitrary: i)
  case Nil
  show ?case by (simp add: star_cls_nil)
next
  case (Cons x xs)
  show ?case
  proof (cases "cls_match k x")
    case True
    then have ne: "x \<noteq> c" using assms by auto
    have L: "concat (map (rx_m (Chr c)) (rx_m (Star (Cls k)) (i, x # xs, g))) =
             concat (map (rx_m (Chr c)) (rx_m (Star (Cls k)) (Suc i, xs, g)))"
      using True ne by (simp add: star_cls_step)
    show ?thesis unfolding L Cons.IH using True by simp
  next
    case False
    then show ?thesis by (auto simp add: star_cls_step)
  qed
qed

lemma rx_search_Bol_later: "0 < i \<Longrightarrow> rx_search (Seq Bol r) i s = None"
proof (induction s arbitrary: i)
  case Nil
  then show ?case by (subst rx_search.simps) simp
next
  case (Cons x xs)
  from Cons.prems Cons.IH [of "Suc i"] show ?case by (subst rx_search.simps) simp
qed

lemma NoneOf_slash: "cls_match (NoneOf ''/'') = (\<lambda>x. x \<noteq> CHR ''/'')"
  by (auto simp: fun_eq_iff)

lemma scope_prefix_empty: "rx_m scope_prefix_rx (0, [], None) = []"
  by (simp add: scope_prefix_rx_def Plus_def)

lemma scope_prefix_other: "c \<noteq> CHR ''@'' \<Longrightarrow> rx_m scope_prefix_rx (0, c # rest, None) = []"
  by (simp add: scope_prefix_rx_def Plus_def)

lemma scope_prefix_at:
  "rx_m scope_prefix_rx (0, CHR ''@'' # rest, None) =
     (if takeWhile (\<lambda>x. x \<noteq> CHR ''/'') rest \<noteq> [] \<and> dropWhile (\<lambda>x. x \<noteq> CHR ''/'') rest \<noteq> []
      then [(Suc (Suc (length (takeWhile (\<lambda>x. x \<noteq> CHR ''/'') rest))),
             tl (dropWhile (\<lambda>x. x \<noteq> CHR ''/'') rest), None)]
      else [])"
proof (cases rest)
  case Nil
  then show ?thesis by (simp add: scope_prefix_rx_def Plus_def)
next
  case (Cons x xs)
  have nm: "\<not> cls_match (NoneOf ''/'') CHR ''/''" by simp
  show ?thesis
  proof (cases "x = CHR ''/''")
    case True
    with Cons show ?thesis by (simp add: scope_prefix_rx_def Plus_def)
  next
    case False
    have step: "rx_m scope_prefix_rx (0, CHR ''@'' # rest, None) =
        concat (map (rx_m (Chr CHR ''/''))
          (rx_m (Star (Cls (NoneOf ''/''))) (Suc (Suc 0), xs, None)))"
      using Cons False by (simp add: scope_prefix_rx_def Plus_def)
    have hd: "dropWhile (\<lambda>x. x \<noteq> CHR ''/'') xs \<noteq> [] \<Longrightarrow>
              hd (dropWhile (\<lambda>x. x \<noteq> CHR ''/'') xs) = CHR ''/''"
      using hd_dropWhile [of "\<lambda>x. x \<noteq> CHR ''/''" xs] by simp
    show ?thesis
      unfolding step star_cls_then_chr [OF nm] NoneOf_slash
      using Cons False hd by (cases "dropWhile (\<lambda>x. x \<noteq> CHR ''/'') xs = []") simp_all
  qed
qed

lemma replace_scope_prefix:
  "String_replace name scope_prefix_rx '''' =
     (case spec_strip_scope name of Some n \<Rightarrow> n | None \<Rightarrow> name)"
proof -
  have later: "rx_search scope_prefix_rx (Suc 0) s = None" for s
    unfolding scope_prefix_rx_def by (rule rx_search_Bol_later) simp
  have drop: "drop (Suc (length (takeWhile P xs))) xs = tl (dropWhile P xs)"
    for P and xs :: string
    by (induction xs) auto
  show ?thesis
  proof (cases name)
    case Nil
    then show ?thesis
      unfolding String_replace_def RegExp_exec_def
      by (subst rx_search.simps) (simp add: scope_prefix_empty spec_strip_scope_def)
  next
    case (Cons c rest)
    show ?thesis
    proof (cases "c = CHR ''@''")
      case True
      with Cons show ?thesis
        unfolding String_replace_def RegExp_exec_def
        by (subst rx_search.simps) (simp add: scope_prefix_at spec_strip_scope_def later drop)
    next
      case False
      with Cons show ?thesis
        unfolding String_replace_def RegExp_exec_def
        by (subst rx_search.simps) (simp add: scope_prefix_other spec_strip_scope_def later)
    qed
  qed
qed

subsection \<open>The categorizer follows the three rules\<close>

lemma find_key_map_of:
  "map_option snd (find (\<lambda>(p, c). f p = k) xs) = map_of (map (\<lambda>(p, c). (f p, c)) xs) k"
  by (induction xs) auto

lemma Map_get_packageToCategory:
  "Map_get packageToCategory (toLowerCase name) = spec_exact name"
  by (simp add: Map_get_def spec_exact_def find_key_map_of packageToCategory_pairs
      known_packages_def pairs_of_map [of toLowerCase])

lemma categories_nonempty: "list_all (\<lambda>c. c \<noteq> []) (map fst TOOL_CATEGORIES)"
  by (simp add: TOOL_CATEGORIES_def)

lemma pairs_of_category: "(p, c) \<in> set (pairs_of f T) \<Longrightarrow> c \<in> set (map fst T)"
  by (induction T) (auto simp: pairs_of_def)

lemma Map_get_category:
  assumes "Map_get packageToCategory k = Some c"
  shows "c \<in> set (map fst TOOL_CATEGORIES)"
proof -
  from assms have "(k, c) \<in> set (pairs_of toLowerCase TOOL_CATEGORIES)"
    by (simp add: Map_get_def packageToCategory_pairs map_of_SomeD)
  then show ?thesis by (rule pairs_of_category)
qed

lemma category_nonempty: "c \<in> set (map fst TOOL_CATEGORIES) \<Longrightarrow> c \<noteq> []"
  using categories_nonempty by (simp only: list_all_iff) blast

lemma truthy_Map_get:
  "truthy (Map_get packageToCategory k) = (Map_get packageToCategory k \<noteq> None)"
proof (cases "Map_get packageToCategory k")
  case None
  then show ?thesis by simp
next
  case (Some c)
  with category_nonempty [OF Map_get_category [OF Some]] show ?thesis by simp
qed

lemma fuzzy_scan_find:
  "fuzzy_scan n xs =
     map_option snd (find (\<lambda>(p, c). String_includes n p \<or> String_includes p n) xs)"
  by (induction n xs rule: fuzzy_scan.induct) simp_all

lemma truthy_spec_exact: "truthy (spec_exact n) = (spec_exact n \<noteq> None)"
  using truthy_Map_get [of "toLowerCase n"] by (simp add: Map_get_packageToCategory)

lemma find_map_pairs:
  "find P (map (\<lambda>(p, c). (f p, c)) xs) =
     map_option (\<lambda>(p, c). (f p, c)) (find (\<lambda>(p, c). P (f p, c)) xs)"
  by (induction xs) auto

lemma fuzzy_scan_packageToCategory:
  "fuzzy_scan (toLowerCase name) packageToCategory = spec_fuzzy name"
  by (simp add: fuzzy_scan_find spec_fuzzy_def packageToCategory_pairs known_packages_def
      pairs_of_map [of toLowerCase] find_map_pairs option.map_comp comp_def case_prod_beta)

lemma startsWith_at: "startsWith name ''@'' = (\<exists>rest. name = CHR ''@'' # rest)"
  by (cases name) (auto simp: startsWith_def)

lemma spec_strip_scope_at: "spec_strip_scope name = Some n \<Longrightarrow> startsWith name ''@''"
  by (cases name) (auto simp: spec_strip_scope_def startsWith_def split: if_splits)

lemma categorizePackage_spec:
  "categorizePackage name = categorize_spec name"
proof (cases "spec_exact name")
  case (Some c)
  have "c \<noteq> []" using truthy_spec_exact [of name] Some by simp
  with Some show ?thesis
    by (simp add: categorizePackage_def categorize_spec_def Map_get_packageToCategory)
next
  case None
  note exact = None
  have direct: "Map_get packageToCategory (toLowerCase name) = None"
    using None by (simp add: Map_get_packageToCategory)
  show ?thesis
  proof (cases "spec_strip_scope name")
    case None
    have "(if startsWith name ''@''
           then Map_get packageToCategory
                  (toLowerCase (String_replace name scope_prefix_rx ''''))
           else None) = None"
      using None direct by (simp add: replace_scope_prefix)
    then show ?thesis
      using None exact direct truthy_spec_exact [of name]
      by (simp add: categorizePackage_def categorize_spec_def fuzzy_scan_packageToCategory)
  next
    case (Some n)
    have "(if startsWith name ''@''
           then Map_get packageToCategory
                  (toLowerCase (String_replace name scope_prefix_rx ''''))
           else None) = spec_exact n"
      using Some spec_strip_scope_at [OF Some]
      by (simp add: replace_scope_prefix Map_get_packageToCategory)
    then show ?thesis
      using Some exact direct truthy_spec_exact [of n] truthy_spec_exact [of name]
      by (cases "spec_exact n")
         (simp_all add: categorizePackage_def categorize_spec_def
            fuzzy_scan_packageToCategory Map_get_packageToCategory)
  qed
qed

text \<open>
  Claim C4. For every name, \<open>categorizePackage\<close> is the three rules of the specification
  tried in order, the first that fires deciding: the exact match in the reverse index
  ignoring case, the same match after a scope prefix \<open>@scope/\<close> is removed, and the first
  known package, in the taxonomy's order, such that one name contains the other ignoring
  case; it is \<open>null\<close> when none fires. In particular \<open>@myorg/jsonwebtoken\<close> is in
  \<open>Authentication\<close>.
\<close>

theorem C4_categorizePackage_rules:
  "categorizePackage name = categorize_spec name \<and>
   categorizePackage ''@myorg/jsonwebtoken'' = Some ''Authentication''"
proof
  show "categorizePackage name = categorize_spec name" by (rule categorizePackage_spec)
  show "categorizePackage ''@myorg/jsonwebtoken'' = Some ''Authentication''" by code_simp
qed

text \<open>
  Claim C9. The empty name is put in \<open>CI/CD\<close>, the category of the first package of the
  taxonomy: neither lookup finds it, and every known package contains the empty string.
\<close>

theorem C9_categorizePackage_empty: "categorizePackage '''' = Some ''CI/CD''"
  by code_simp

section \<open>Properties of the build-versus-buy detector\<close>

subsection \<open>The detections of one category\<close>

lemma event_loop_concat:
  "event_loop es installed results =
     results @ concat (map (\<lambda>e. if action e \<noteq> ''file_write'' then []
                                else map (to_result e) (event_detections installed e)) es)"
  by (induction es arbitrary: results) auto

lemma of_cat_append [simp]: "of_cat cat (xs @ ys) = of_cat cat xs @ of_cat cat ys"
  by (simp add: of_cat_def)

lemma of_cat_Nil [simp]: "of_cat cat [] = []"
  by (simp add: of_cat_def)

lemma of_cat_Cons:
  "of_cat cat (d # ds) = (if det_category d = cat then d # of_cat cat ds else of_cat cat ds)"
  by (simp add: of_cat_def)

lemma of_cat_pattern_loop:
  "of_cat cat (pattern_loop ps c filePath dets) =
     of_cat cat dets @
       (if c = cat \<and> some_pattern_matches ps filePath
        then [\<lparr>det_category = cat, det_keywords = [filePath], det_confidence = 60\<rparr>] else [])"
  by (induction ps) (auto simp: some_pattern_matches_def of_cat_Cons)

lemma of_cat_path_loop:
  "distinct (map fst entries) \<Longrightarrow>
   of_cat cat (path_loop entries installed filePath dets) =
     of_cat cat dets @
       (case map_of entries cat of
          None \<Rightarrow> []
        | Some ps \<Rightarrow> path_effect cat ps installed filePath)"
proof (induction entries arbitrary: dets)
  case Nil
  then show ?case by simp
next
  case (Cons en entries)
  obtain c ps where en: "en = (c, ps)" by (cases en)
  have notin: "c \<notin> fst ` set entries" and dist: "distinct (map fst entries)"
    using Cons.prems en by auto
  have none: "map_of entries c = None" using notin by (simp add: map_of_eq_None_iff)
  show ?case
    using Cons.IH [OF dist] none
    by (auto simp: en of_cat_pattern_loop path_effect_def split: option.splits)
qed

lemma merge_existing_None: "(merge_existing c m dets = None) = (of_cat c dets = [])"
  by (induction dets) (auto simp: of_cat_Cons)

lemma merge_existing_Some:
  "merge_existing c m dets = Some dets' \<Longrightarrow>
   of_cat cat dets' =
     (if cat = c
      then (case of_cat c dets of
              [] \<Rightarrow> []
            | d # ds' \<Rightarrow>
                d\<lparr>det_keywords := det_keywords d @ m,
                  det_confidence := min 95 (det_confidence d + int (length m) * 10)\<rparr> # ds')
      else of_cat cat dets)"
  by (induction dets arbitrary: dets') (auto simp: of_cat_Cons split: if_splits)

lemma of_cat_keyword_step:
  "of_cat cat (keyword_step c kws installed content dets) =
     (if c = cat then keyword_effect cat kws installed content (of_cat cat dets)
      else of_cat cat dets)"
proof (cases "merge_existing c (matched_keywords content kws) dets")
  case None
  then have "of_cat c dets = []" by (simp add: merge_existing_None)
  with None show ?thesis
    by (auto simp: keyword_step_def keyword_effect_def Let_def of_cat_Cons)
next
  case (Some dets')
  have ne: "of_cat c dets \<noteq> []"
    using Some merge_existing_None [of c "matched_keywords content kws" dets] by simp
  from merge_existing_Some [OF Some, of cat] Some ne show ?thesis
    by (auto simp: keyword_step_def keyword_effect_def Let_def split: list.splits)
qed

lemma of_cat_keyword_loop:
  "distinct (map fst entries) \<Longrightarrow>
   of_cat cat (keyword_loop entries installed content dets) =
     (case map_of entries cat of
        None \<Rightarrow> of_cat cat dets
      | Some kws \<Rightarrow> keyword_effect cat kws installed content (of_cat cat dets))"
proof (induction entries arbitrary: dets)
  case Nil
  then show ?case by simp
next
  case (Cons en entries)
  obtain c kws where en: "en = (c, kws)" by (cases en)
  have notin: "c \<notin> fst ` set entries" and dist: "distinct (map fst entries)"
    using Cons.prems en by auto
  have none: "map_of entries c = None" using notin by (simp add: map_of_eq_None_iff)
  show ?case
    using Cons.IH [OF dist] none by (simp add: en of_cat_keyword_step split: option.splits)
qed

lemma keyword_tables_distinct:
  "distinct (map fst DOMAIN_KEYWORDS)" "distinct (map fst DOMAIN_FILE_PATTERNS)"
  by (simp_all add: DOMAIN_KEYWORDS_def DOMAIN_FILE_PATTERNS_def)

lemma of_cat_event_detections:
  "of_cat cat (event_detections installed e) =
     (let found = (case map_of DOMAIN_FILE_PATTERNS cat of
                     None \<Rightarrow> []
                   | Some ps \<Rightarrow> path_effect cat ps installed (raw e))
      in case map_of DOMAIN_KEYWORDS cat of
           None \<Rightarrow> found
         | Some kws \<Rightarrow> keyword_effect cat kws installed (content_of e) found)"
  by (simp add: event_detections_def Let_def of_cat_keyword_loop of_cat_path_loop
      keyword_tables_distinct split: option.splits)

lemma length_of_cat_event_detections: "length (of_cat cat (event_detections installed e)) \<le> 1"
  by (simp add: of_cat_event_detections path_effect_def keyword_effect_def Let_def
      split: option.splits)

lemma suppressed_no_detection:
  "Set_has installed (cat_key cat) \<Longrightarrow> of_cat cat (event_detections installed e) = []"
  by (simp add: of_cat_event_detections path_effect_def keyword_effect_def Let_def
      split: option.splits)

lemma detection_not_suppressed:
  assumes "d \<in> set (event_detections installed e)"
  shows "\<not> Set_has installed (cat_key (det_category d))"
proof
  assume "Set_has installed (cat_key (det_category d))"
  then have "of_cat (det_category d) (event_detections installed e) = []"
    by (rule suppressed_no_detection)
  with assms show False by (auto simp: of_cat_def filter_empty_conv)
qed

lemma detectCustomImplementation_concat:
  "detectCustomImplementation evs =
     concat (map (\<lambda>e. if action e \<noteq> ''file_write'' then []
                       else map (to_result e) (event_detections (collect_installed evs []) e))
               evs)"
  by (simp add: detectCustomImplementation_def event_loop_concat)

subsection \<open>Categories of the categorizer\<close>

lemma find_pairs_category:
  "map_option snd (find P (pairs_of f T)) = Some c \<Longrightarrow> c \<in> set (map fst T)"
proof -
  assume "map_option snd (find P (pairs_of f T)) = Some c"
  then obtain p where "find P (pairs_of f T) = Some (p, c)" by auto
  then have "(p, c) \<in> set (pairs_of f T)" by (auto simp: find_Some_iff)
  then show ?thesis by (rule pairs_of_category)
qed

lemma categorizePackage_category:
  assumes "categorizePackage name = Some c"
  shows "c \<in> set (map fst TOOL_CATEGORIES)"
proof -
  from assms have "categorize_spec name = Some c" by (simp add: categorizePackage_spec)
  then consider n where "spec_exact n = Some c" | "spec_fuzzy name = Some c"
    by (auto simp: categorize_spec_def split: option.splits)
  then show ?thesis
  proof cases
    case 1
    then show ?thesis unfolding spec_exact_def known_packages_def by (rule find_pairs_category)
  next
    case 2
    then show ?thesis unfolding spec_fuzzy_def known_packages_def by (rule find_pairs_category)
  qed
qed

subsection \<open>The first pass\<close>

lemma Set_add_mono: "x \<in> set s \<Longrightarrow> x \<in> set (Set_add y s)"
  by (simp add: Set_add_def)

lemma Set_add_in: "x \<in> set (Set_add x s)"
  by (simp add: Set_add_def)

lemma add_packages_mono: "x \<in> set installed \<Longrightarrow> x \<in> set (add_packages pkgs installed)"
  by (induction pkgs arbitrary: installed) (auto simp: Let_def Set_add_mono)

lemma add_packages_category:
  "p \<in> set pkgs \<Longrightarrow> categorizePackage p = Some c \<Longrightarrow>
   cat_key c \<in> set (add_packages pkgs installed)"
proof (induction pkgs arbitrary: installed)
  case Nil
  then show ?case by simp
next
  case (Cons q pkgs)
  show ?case
  proof (cases "p = q")
    case True
    have "c \<noteq> []"
      using category_nonempty [OF categorizePackage_category [OF Cons.prems(2)]] .
    with True Cons.prems(2) show ?thesis
      by (simp add: Let_def add_packages_mono Set_add_in)
  next
    case False
    with Cons show ?thesis by (simp add: Let_def)
  qed
qed

lemma collect_installed_mono:
  "x \<in> set installed \<Longrightarrow> x \<in> set (collect_installed evs installed)"
  by (induction evs arbitrary: installed) (auto simp: add_packages_mono)

lemma collect_installed_category:
  "e \<in> set evs \<Longrightarrow> action e = ''bash'' \<Longrightarrow> p \<in> set (extractPackageNames (raw e)) \<Longrightarrow>
   categorizePackage p = Some c \<Longrightarrow> cat_key c \<in> set (collect_installed evs installed)"
proof (induction evs arbitrary: installed)
  case Nil
  then show ?case by simp
next
  case (Cons x evs)
  show ?case
  proof (cases "e = x")
    case True
    with Cons.prems show ?thesis
      by (simp add: collect_installed_mono add_packages_category)
  next
    case False
    with Cons show ?thesis by simp
  qed
qed

lemma result_not_suppressed:
  assumes "r \<in> set (detectCustomImplementation evs)"
  shows "\<not> Set_has (collect_installed evs []) (cat_key (category r))"
proof -
  from assms obtain e d where "d \<in> set (event_detections (collect_installed evs []) e)"
    and "r = to_result e d"
    by (auto simp: detectCustomImplementation_concat split: if_splits)
  then show ?thesis using detection_not_suppressed [of d] by (simp add: to_result_def)
qed

lemma cat_key_inject: "cat_key a = cat_key b \<Longrightarrow> a = b"
  by (simp add: cat_key_def)

text \<open>What the first pass does with the names it is given: the category of every name
  that \<open>extractPackageNames\<close> returns is suppressed, and a suppressed category gets no
  result.\<close>

lemma extracted_category_suppressed:
  assumes "e \<in> set evs" and "action e = ''bash''"
    and "p \<in> set (extractPackageNames (raw e))" and "categorizePackage p = Some c"
  shows "Set_has (collect_installed evs []) (cat_key c) \<and>
         c \<notin> category ` set (detectCustomImplementation evs) \<and>
         (\<forall>e'. of_cat c (event_detections (collect_installed evs []) e') = [])"
proof -
  have sup: "Set_has (collect_installed evs []) (cat_key c)"
    using collect_installed_category [OF assms] by (simp add: Set_has_def)
  moreover have "c \<notin> category ` set (detectCustomImplementation evs)"
    using result_not_suppressed [of _ evs] sup by auto
  moreover have "\<forall>e'. of_cat c (event_detections (collect_installed evs []) e') = []"
    using suppressed_no_detection [OF sup] by simp
  ultimately show ?thesis by simp
qed

text \<open>
  Claim C2 says that no result carries a category that a package install of the same
  event set satisfies. The code breaks it for every scoped package: the pattern
  \<^verbatim>\<open>/@[^/].*$/\<close> of \<open>extractPackageNames\<close>, meant to remove a version suffix, matches
  at the leading \<open>@\<close> of \<open>@sentry/node\<close> and erases the whole name. The command
  \<open>npm install @sentry/node\<close> gives the one package name \<open>''\<close>, the first pass records
  the category \<open>CI/CD\<close> of the empty name and not \<open>Observability\<close>, the category of
  \<open>@sentry/node\<close>, and the write of \<open>src/logger.ts\<close> in the same event set is reported as
  a custom \<open>Observability\<close> implementation.
\<close>

theorem C2_scoped_install_not_suppressed:
  "extractPackageNames ''npm install @sentry/node'' = [''''] \<and>
   categorizePackage ''@sentry/node'' = Some ''Observability'' \<and>
   collect_installed
     [write_event ''src/logger.ts'' (Some ''logger metrics''),
      bash_event ''npm install @sentry/node''] [] = ['''', ''__cat__CI/CD''] \<and>
   map finding
     (detectCustomImplementation
        [write_event ''src/logger.ts'' (Some ''logger metrics''),
         bash_event ''npm install @sentry/node'']) =
     [(''Observability'', [''src/logger.ts'', ''logger'', ''metrics''], 80)]"
proof (intro conjI)
  show "extractPackageNames ''npm install @sentry/node'' = ['''']" by code_simp
  show "categorizePackage ''@sentry/node'' = Some ''Observability''" by code_simp
  show "collect_installed
     [write_event ''src/logger.ts'' (Some ''logger metrics''),
      bash_event ''npm install @sentry/node''] [] = ['''', ''__cat__CI/CD'']"
    by code_simp
  show "map finding
     (detectCustomImplementation
        [write_event ''src/logger.ts'' (Some ''logger metrics''),
         bash_event ''npm install @sentry/node'']) =
     [(''Observability'', [''src/logger.ts'', ''logger'', ''metrics''], 80)]"
    by code_simp
qed

subsection \<open>Path detections and merging\<close>

lemma filter_concat_map:
  "filter P (concat (map f xs)) = concat (map (\<lambda>x. filter P (f x)) xs)"
  by (induction xs) auto

lemma concat_map_singletons:
  "concat (map (\<lambda>x. if A x then [g x] else []) xs) = map g (filter A xs)"
  by (induction xs) auto

lemma path_detection_merged:
  assumes "(cat, ps) \<in> set DOMAIN_FILE_PATTERNS" and "(cat, kws) \<in> set DOMAIN_KEYWORDS"
    and "\<not> Set_has installed (cat_key cat)" and "some_pattern_matches ps (raw e)"
  shows "of_cat cat (event_detections installed e) =
           [\<lparr>det_category = cat,
             det_keywords =
               (if 2 \<le> length (matched_keywords (content_of e) kws)
                then raw e # matched_keywords (content_of e) kws else [raw e]),
             det_confidence =
               (if 2 \<le> length (matched_keywords (content_of e) kws)
                then min 95 (60 + 10 * int (length (matched_keywords (content_of e) kws)))
                else 60)\<rparr>]"
proof -
  have fp: "map_of DOMAIN_FILE_PATTERNS cat = Some ps"
    using assms(1) keyword_tables_distinct(2) by simp
  have kw: "map_of DOMAIN_KEYWORDS cat = Some kws"
    using assms(2) keyword_tables_distinct(1) by simp
  have "of_cat cat (event_detections installed e) =
          keyword_effect cat kws installed (content_of e) (path_effect cat ps installed (raw e))"
    by (simp add: of_cat_event_detections fp kw)
  then show ?thesis
    using assms(3,4) by (simp add: keyword_effect_def path_effect_def mult.commute)
qed

lemma results_with_path:
  assumes "(cat, ps) \<in> set DOMAIN_FILE_PATTERNS" and "(cat, kws) \<in> set DOMAIN_KEYWORDS"
    and "\<not> Set_has installed (cat_key cat)"
  shows "filter (\<lambda>r. category r = cat \<and> some_pattern_matches ps (raw (event r)))
           (if action x \<noteq> ''file_write'' then []
            else map (to_result x) (event_detections installed x)) =
         (if action x = ''file_write'' \<and> some_pattern_matches ps (raw x)
          then [\<lparr>event = x, category = cat,
                 matchedKeywords =
                   (if 2 \<le> length (matched_keywords (content_of x) kws)
                    then raw x # matched_keywords (content_of x) kws else [raw x]),
                 confidence =
                   (if 2 \<le> length (matched_keywords (content_of x) kws)
                    then min 95 (60 + 10 * int (length (matched_keywords (content_of x) kws)))
                    else 60)\<rparr>]
          else [])"
proof (cases "action x = ''file_write'' \<and> some_pattern_matches ps (raw x)")
  case True
  have "filter (\<lambda>r. category r = cat \<and> some_pattern_matches ps (raw (event r)))
          (map (to_result x) (event_detections installed x)) =
        map (to_result x) (of_cat cat (event_detections installed x))"
    using True by (simp add: filter_map comp_def to_result_def of_cat_def)
  with True show ?thesis
    by (simp add: path_detection_merged [OF assms] to_result_def)
next
  case False
  then show ?thesis by (auto simp: filter_map comp_def to_result_def filter_empty_conv)
qed

lemma results_of_event:
  "filter (\<lambda>r. event r = e \<and> category r = cat)
     (if action x \<noteq> ''file_write'' then [] else map (to_result x) (event_detections installed x)) =
   (if x = e \<and> action e = ''file_write''
    then map (to_result e) (of_cat cat (event_detections installed e)) else [])"
  by (auto simp: filter_map comp_def to_result_def of_cat_def filter_empty_conv)

lemma length_concat_count:
  "length ys \<le> 1 \<Longrightarrow>
   length (concat (map (\<lambda>x. if x = e \<and> P then ys else []) xs)) \<le> count_list xs e"
  by (induction xs) auto

lemma results_per_occurrence:
  "length (filter (\<lambda>r. event r = e \<and> category r = c) (detectCustomImplementation evs))
     \<le> count_list evs e"
proof -
  have "length (map (to_result e) (of_cat c (event_detections (collect_installed evs []) e))) \<le> 1"
    using length_of_cat_event_detections [of c "collect_installed evs []" e] by simp
  then show ?thesis
    unfolding detectCustomImplementation_concat filter_concat_map results_of_event
    by (rule length_concat_count)
qed

text \<open>
  Claim C5. Take a category that is not suppressed. The results of
  \<open>detectCustomImplementation\<close> of that category whose event's path matches a path
  pattern of the category are exactly these, one for each \<open>file_write\<close> event of the
  list whose path matches, in the order of the list and however many patterns match:
  without two matching content keywords the result has the path as its only keyword and
  the confidence 60; with at least two, the matched keywords follow the path and the
  confidence is 60 plus 10 for each match, at most 95. For every event and category, the
  results number at most the occurrences of the event in the list: each pass over an
  event emits at most one result of a category.
\<close>

theorem C5_path_detection_merged:
  assumes "(cat, ps) \<in> set DOMAIN_FILE_PATTERNS" and "(cat, kws) \<in> set DOMAIN_KEYWORDS"
    and "\<not> Set_has (collect_installed evs []) (cat_key cat)"
  shows "filter (\<lambda>r. category r = cat \<and> some_pattern_matches ps (raw (event r)))
           (detectCustomImplementation evs) =
         map (\<lambda>e. \<lparr>event = e, category = cat,
                    matchedKeywords =
                      (if 2 \<le> length (matched_keywords (content_of e) kws)
                       then raw e # matched_keywords (content_of e) kws else [raw e]),
                    confidence =
                      (if 2 \<le> length (matched_keywords (content_of e) kws)
                       then min 95 (60 + 10 * int (length (matched_keywords (content_of e) kws)))
                       else 60)\<rparr>)
           (filter (\<lambda>e. action e = ''file_write'' \<and> some_pattern_matches ps (raw e)) evs) \<and>
         (\<forall>e c. length (filter (\<lambda>r. event r = e \<and> category r = c)
                           (detectCustomImplementation evs)) \<le> count_list evs e)"
proof
  show "filter (\<lambda>r. category r = cat \<and> some_pattern_matches ps (raw (event r)))
           (detectCustomImplementation evs) =
         map (\<lambda>e. \<lparr>event = e, category = cat,
                    matchedKeywords =
                      (if 2 \<le> length (matched_keywords (content_of e) kws)
                       then raw e # matched_keywords (content_of e) kws else [raw e]),
                    confidence =
                      (if 2 \<le> length (matched_keywords (content_of e) kws)
                       then min 95 (60 + 10 * int (length (matched_keywords (content_of e) kws)))
                       else 60)\<rparr>)
           (filter (\<lambda>e. action e = ''file_write'' \<and> some_pattern_matches ps (raw e)) evs)"
    unfolding detectCustomImplementation_concat filter_concat_map results_with_path [OF assms]
    by (rule concat_map_singletons)
  show "\<forall>e c. length (filter (\<lambda>r. event r = e \<and> category r = c)
                           (detectCustomImplementation evs)) \<le> count_list evs e"
    using results_per_occurrence by blast
qed

theorem C5_path_detection_merged_witness:
  "filter (\<lambda>r. category r = ''Caching'' \<and>
               some_pattern_matches
                 [Seq (Lit ''cache.ts'') Eol, Seq (Lit ''cache.js'') Eol, Lit ''lib/cache'',
                  Lit ''utils/cache''] (raw (event r)))
     (detectCustomImplementation [write_event ''lib/cache.ts'' (Some ''cache ttl memoize'')]) =
   [\<lparr>event = write_event ''lib/cache.ts'' (Some ''cache ttl memoize''),
     category = ''Caching'',
     matchedKeywords = [''lib/cache.ts'', ''cache'', ''ttl'', ''memoize''],
     confidence = 90\<rparr>]"
proof -
  let ?ps = "[Seq (Lit ''cache.ts'') Eol, Seq (Lit ''cache.js'') Eol, Lit ''lib/cache'',
              Lit ''utils/cache'']"
  let ?kws = "[''cache'', ''ttl'', ''lru'', ''memoize'', ''invalidate-cache'', ''cacheKey'',
               ''cache-control'', ''redis-client'']"
  let ?e = "write_event ''lib/cache.ts'' (Some ''cache ttl memoize'')"
  have fp: "(''Caching'', ?ps) \<in> set DOMAIN_FILE_PATTERNS"
    by (simp add: DOMAIN_FILE_PATTERNS_def)
  have kw: "(''Caching'', ?kws) \<in> set DOMAIN_KEYWORDS"
    by (simp add: DOMAIN_KEYWORDS_def)
  have ns: "\<not> Set_has (collect_installed [?e] []) (cat_key ''Caching'')"
    by (simp add: Set_has_def write_event_def)
  have "some_pattern_matches ?ps ''lib/cache.ts''" by code_simp
  then have hit: "some_pattern_matches ?ps (raw ?e)"
    by (simp only: write_event_def RawEvent.simps)
  have m: "matched_keywords (content_of ?e) ?kws = [''cache'', ''ttl'', ''memoize'']"
    by code_simp
  have sel: "filter (\<lambda>e. action e = ''file_write'' \<and> some_pattern_matches ?ps (raw e)) [?e] = [?e]"
    using hit by (simp add: write_event_def)
  have raw: "raw ?e = ''lib/cache.ts''" by (simp add: write_event_def)
  show ?thesis
    unfolding C5_path_detection_merged [OF fp kw ns, THEN conjunct1] sel
    by (simp only: list.map m raw) simp
qed

subsection \<open>Detections by content alone\<close>

lemma content_only_detection:
  assumes "(cat, kws) \<in> set DOMAIN_KEYWORDS" and "\<not> Set_has installed (cat_key cat)"
    and "2 \<le> length (matched_keywords (content_of e) kws)"
    and "case map_of DOMAIN_FILE_PATTERNS cat of
           None \<Rightarrow> True | Some ps \<Rightarrow> \<not> some_pattern_matches ps (raw e)"
  shows "of_cat cat (event_detections installed e) =
           [\<lparr>det_category = cat, det_keywords = matched_keywords (content_of e) kws,
             det_confidence = 40 + 10 * int (length (matched_keywords (content_of e) kws))\<rparr>]"
proof -
  have kw: "map_of DOMAIN_KEYWORDS cat = Some kws"
    using assms(1) keyword_tables_distinct(1) by simp
  show ?thesis
  proof (cases "map_of DOMAIN_FILE_PATTERNS cat")
    case None
    with assms(2,3) show ?thesis
      by (simp add: of_cat_event_detections kw keyword_effect_def mult.commute)
  next
    case (Some ps)
    with assms(2-4) show ?thesis
      by (simp add: of_cat_event_detections kw keyword_effect_def path_effect_def mult.commute)
  qed
qed

lemma cache_example:
  "map finding
     (detectCustomImplementation [write_event ''src/store.ts'' (Some ''cache ttl memoize'')]) =
     [(''Caching'', [''cache'', ''ttl'', ''memoize''], 70)]"
  by code_simp

text \<open>
  Claim C1 says that a detection by content alone has the confidence
  \<open>min(95, 40 + 10 * matchCount)\<close>. The code has no cap on this branch
  (\<open>content_only_detection\<close>): the claim's example with three keywords gives 70
  (\<open>cache_example\<close>), and a file with seven \<open>Authentication\<close> keywords, whose path
  matches no pattern, gives the confidence 110, above the cap of 95 and above the range
  0 to 100 that the interface documents.
\<close>

theorem C1_confidence_exceeds_cap:
  "map finding
     (detectCustomImplementation
        [write_event ''notes.txt''
           (Some ''jwt bcrypt login verifyToken signToken authMiddleware session-token'')]) =
     [(''Authentication'',
       [''jwt'', ''bcrypt'', ''verifyToken'', ''signToken'', ''authMiddleware'', ''login'',
        ''session-token''],
       110)]"
  by code_simp

subsection \<open>Missing content and commands that install nothing\<close>

lemma keywords_nonempty:
  "list_all (\<lambda>(c, kws). list_all (\<lambda>kw. kw \<noteq> []) kws) DOMAIN_KEYWORDS"
  by (simp add: DOMAIN_KEYWORDS_def)

lemma matched_keywords_empty:
  "list_all (\<lambda>kw. kw \<noteq> []) kws \<Longrightarrow> matched_keywords '''' kws = []"
  by (induction kws) (auto simp: matched_keywords_def toLowerCase_def)

lemma keyword_loop_empty:
  "list_all (\<lambda>(c, kws). list_all (\<lambda>kw. kw \<noteq> []) kws) entries \<Longrightarrow>
   keyword_loop entries installed '''' dets = dets"
  by (induction entries arbitrary: dets)
     (auto simp: keyword_step_def matched_keywords_empty)

lemma pattern_loop_path_only:
  "list_all (\<lambda>d. det_keywords d = [filePath] \<and> det_confidence d = 60) dets \<Longrightarrow>
   list_all (\<lambda>d. det_keywords d = [filePath] \<and> det_confidence d = 60)
     (pattern_loop ps c filePath dets)"
  by (induction ps) auto

lemma path_loop_path_only:
  "list_all (\<lambda>d. det_keywords d = [filePath] \<and> det_confidence d = 60) dets \<Longrightarrow>
   list_all (\<lambda>d. det_keywords d = [filePath] \<and> det_confidence d = 60)
     (path_loop entries installed filePath dets)"
  by (induction entries arbitrary: dets) (auto simp: pattern_loop_path_only)

lemma no_content_path_only:
  assumes "result e = None"
  shows "list_all (\<lambda>d. det_keywords d = [raw e] \<and> det_confidence d = 60)
           (event_detections installed e)"
proof -
  have "content_of e = ''''" using assms by (simp add: content_of_def)
  then have "event_detections installed e = path_loop DOMAIN_FILE_PATTERNS installed (raw e) []"
    by (simp add: event_detections_def keyword_loop_empty [OF keywords_nonempty])
  then show ?thesis by (simp add: path_loop_path_only)
qed

lemma extract_loop_no_match:
  "list_all (\<lambda>p. RegExp_exec p command = None) ps \<Longrightarrow> extract_loop ps command = []"
  by (induction ps) auto

lemma collect_installed_map:
  assumes "\<And>e. action (g e) = action e" and "\<And>e. raw (g e) = raw e"
  shows "collect_installed (map g evs) installed = collect_installed evs installed"
  by (induction evs arbitrary: installed) (simp_all add: assms)

lemma event_detections_cong:
  "raw e' = raw e \<Longrightarrow> content_of e' = content_of e \<Longrightarrow>
   event_detections installed e' = event_detections installed e"
  by (simp add: event_detections_def)

lemma finding_to_result: "finding (to_result e d) = (det_category d, det_keywords d, det_confidence d)"
  by (simp add: finding_def to_result_def)

lemma findings_concat:
  "map finding (detectCustomImplementation evs) =
     concat (map (\<lambda>e. if action e \<noteq> ''file_write'' then []
                       else map (\<lambda>d. (det_category d, det_keywords d, det_confidence d))
                              (event_detections (collect_installed evs []) e)) evs)"
  by (simp add: detectCustomImplementation_concat map_concat comp_def finding_to_result
      if_distrib [of "map finding"] cong: if_cong)

lemma findings_map:
  assumes "\<And>e. action (g e) = action e" and "\<And>e. raw (g e) = raw e"
    and "\<And>e. content_of (g e) = content_of e"
  shows "map finding (detectCustomImplementation (map g evs)) =
         map finding (detectCustomImplementation evs)"
  by (simp add: findings_concat collect_installed_map [of g, OF assms(1,2)] comp_def assms
      event_detections_cong [of "g _", OF assms(2,3)] cong del: if_weak_cong)

subsection \<open>Typed and untyped calls\<close>

lemma collect_installed_any_typed:
  "collect_installed_any (map as_any evs) installed = Inr (collect_installed evs installed)"
  by (induction evs arbitrary: installed) (simp_all add: as_any_def)

lemma content_any_typed: "content_any (any_result (as_any e)) = Some (content_of e)"
  by (simp add: content_any_def as_any_def content_of_def split: option.splits)

lemma event_loop_any_typed:
  "event_loop_any (map as_any evs) installed results =
     Inr (results @
            concat (map (\<lambda>e. if action e \<noteq> ''file_write'' then []
                              else map (\<lambda>d. (det_category d, det_keywords d, det_confidence d))
                                     (event_detections installed e)) evs))"
proof (induction evs arbitrary: results)
  case Nil
  show ?case by simp
next
  case (Cons e evs)
  have raw: "any_raw (as_any e) = Some (raw e)" and act: "any_action (as_any e) = Some (JStr (action e))"
    by (simp_all add: as_any_def)
  show ?case
    by (simp add: Cons.IH content_any_typed raw act keyword_loop_any_def event_detections_def)
qed

lemma detect_any_typed:
  "detectCustomImplementation_any (map as_any evs) =
     Inr (map finding (detectCustomImplementation evs))"
  by (simp add: detectCustomImplementation_any_def collect_installed_any_typed
      event_loop_any_typed findings_concat)

lemma undefined_path_matches_nothing:
  "list_all (\<lambda>(cat, ps). \<not> some_pattern_matches ps ''undefined'') DOMAIN_FILE_PATTERNS"
  by code_simp

text \<open>
  Claim C7 says that the operations never raise, whatever the input. That fails outside
  the declared types: \<open>categorizePackage(undefined)\<close> throws at \<open>name.toLowerCase()\<close>, a
  \<open>file_write\<close> event whose \<open>result\<close> is the number 42 makes \<open>detectCustomImplementation\<close>
  throw at \<open>content.toLowerCase()\<close>, and a \<open>bash\<close> event without \<open>raw\<close> makes it throw at
  \<open>command.match\<close>.
\<close>

theorem C7_malformed_input_raises:
  "categorizePackage_any None = Inl TypeError \<and>
   detectCustomImplementation_any
     [\<lparr>any_action = Some (JStr ''file_write''), any_raw = Some ''notes.txt'',
       any_result = Some (JNum 42)\<rparr>] = Inl TypeError \<and>
   detectCustomImplementation_any
     [\<lparr>any_action = Some (JStr ''bash''), any_raw = None, any_result = None\<rparr>] =
     Inl TypeError"
  by (simp add: categorizePackage_any_def detectCustomImplementation_any_def
      keyword_loop_any_def content_any_def DOMAIN_KEYWORDS_def Set_has_def)

text \<open>
  Claim C7, amended. On input of the declared types the operations do not raise:
  \<open>categorizePackage\<close> called with a string returns, and what it returns is \<open>null\<close> or a
  category of the taxonomy; \<open>detectCustomImplementation\<close> called with events whose
  \<open>action\<close> and \<open>raw\<close> are strings and whose \<open>result\<close> is a string or missing returns
  its findings; an event without \<open>result\<close> is treated as one whose content is empty, so
  that putting \<open>''\<close> for the missing content changes no finding, and such an event has
  path detections only; \<open>extractPackageNames\<close> called with a string returns, and a
  command that none of the install patterns matches gives no package name and adds
  nothing to the set of the first pass.
\<close>

theorem C7_typed_input_never_raises:
  "categorizePackage_any (Some (JStr name)) = Inr (categorizePackage name) \<and>
   (categorizePackage name = None \<or>
      (\<exists>c \<in> set (map fst TOOL_CATEGORIES). categorizePackage name = Some c)) \<and>
   detectCustomImplementation_any (map as_any evs) =
     Inr (map finding (detectCustomImplementation evs)) \<and>
   map finding
     (detectCustomImplementation
        (map (\<lambda>e. case result e of None \<Rightarrow> e\<lparr>result := Some ''''\<rparr> | Some c \<Rightarrow> e) evs)) =
     map finding (detectCustomImplementation evs) \<and>
   (result e = None \<longrightarrow>
      list_all (\<lambda>d. det_keywords d = [raw e] \<and> det_confidence d = 60)
        (event_detections installed e)) \<and>
   extractPackageNames_any (Some (JStr command)) = Inr (extractPackageNames command) \<and>
   (list_all (\<lambda>p. RegExp_exec p command = None) installPatterns \<longrightarrow>
      extractPackageNames command = [] \<and>
      add_packages (extractPackageNames command) installed = installed)"
proof (intro conjI impI)
  show "categorizePackage_any (Some (JStr name)) = Inr (categorizePackage name)"
    by (simp add: categorizePackage_any_def)
  show "categorizePackage name = None \<or>
        (\<exists>c \<in> set (map fst TOOL_CATEGORIES). categorizePackage name = Some c)"
    using categorizePackage_category [of name] by (cases "categorizePackage name") auto
  show "detectCustomImplementation_any (map as_any evs) =
     Inr (map finding (detectCustomImplementation evs))"
    by (rule detect_any_typed)
  show "map finding
     (detectCustomImplementation
        (map (\<lambda>e. case result e of None \<Rightarrow> e\<lparr>result := Some ''''\<rparr> | Some c \<Rightarrow> e) evs)) =
     map finding (detectCustomImplementation evs)"
    by (rule findings_map) (simp_all add: content_of_def split: option.splits)
  show "extractPackageNames_any (Some (JStr command)) = Inr (extractPackageNames command)"
    by (simp add: extractPackageNames_any_def)
next
  assume "result e = None"
  then show "list_all (\<lambda>d. det_keywords d = [raw e] \<and> det_confidence d = 60)
        (event_detections installed e)"
    by (rule no_content_path_only)
next
  assume "list_all (\<lambda>p. RegExp_exec p command = None) installPatterns"
  then show "extractPackageNames command = []"
    by (simp add: extractPackageNames_def extract_loop_no_match)
  then show "add_packages (extractPackageNames command) installed = installed" by simp
qed

theorem C7_typed_input_never_raises_witness:
  "list_all (\<lambda>d. det_keywords d = [''lib/cache.ts''] \<and> det_confidence d = 60)
     (event_detections [] (write_event ''lib/cache.ts'' None)) \<and>
   extractPackageNames ''ls -la'' = [] \<and>
   add_packages (extractPackageNames ''ls -la'') [] = [] \<and>
   detectCustomImplementation_any [as_any (write_event ''lib/cache.ts'' None)] =
     Inr (map finding (detectCustomImplementation [write_event ''lib/cache.ts'' None]))"
proof -
  have none: "result (write_event ''lib/cache.ts'' None) = None" by (simp add: write_event_def)
  have nomatch: "list_all (\<lambda>p. RegExp_exec p ''ls -la'' = None) installPatterns" by code_simp
  note th = C7_typed_input_never_raises
      [of "''ls''" "[write_event ''lib/cache.ts'' None]" "write_event ''lib/cache.ts'' None" "[]"
          "''ls -la''"]
  show ?thesis
    using th [THEN conjunct2, THEN conjunct2, THEN conjunct2, THEN conjunct2, THEN conjunct1,
              rule_format, OF none]
      th [THEN conjunct2, THEN conjunct2, THEN conjunct2, THEN conjunct2, THEN conjunct2,
          THEN conjunct2, rule_format, OF nomatch]
      th [THEN conjunct2, THEN conjunct2, THEN conjunct1]
    by (simp add: write_event_def)
qed

subsection \<open>The calls leave the state of the modules as it is\<close>

lemma RegExp_test_st_unflagged:
  "\<not> re_global R \<Longrightarrow> \<not> re_sticky R \<Longrightarrow>
   RegExp_test_st R S = (RegExp_test (re_source R) S, R)"
  by (simp add: RegExp_test_st_def RegExp_exec_st_def RegExp_test_def RegExp_exec_def
      split: option.splits)

text \<open>A pattern with the \<open>g\<close> flag would not be left alone: a successful \<open>test\<close> moves its
  \<open>lastIndex\<close>, and the next \<open>test\<close> of the same subject fails.\<close>

lemma global_pattern_moves:
  "RegExp_test_st
     \<lparr>re_source = Lit ''a'', re_global = True, re_sticky = False, lastIndex = 0\<rparr> ''a'' =
     (True, \<lparr>re_source = Lit ''a'', re_global = True, re_sticky = False, lastIndex = 1\<rparr>) \<and>
   RegExp_test_st
     \<lparr>re_source = Lit ''a'', re_global = True, re_sticky = False, lastIndex = 1\<rparr> ''a'' =
     (False, \<lparr>re_source = Lit ''a'', re_global = True, re_sticky = False, lastIndex = 0\<rparr>)"
  by code_simp

lemma pattern_loop_st_unflagged:
  "list_all (\<lambda>R. \<not> re_global R \<and> \<not> re_sticky R) Rs \<Longrightarrow>
   pattern_loop_st Rs cat filePath dets =
     (pattern_loop (map re_source Rs) cat filePath dets, Rs)"
  by (induction Rs) (simp_all add: RegExp_test_st_unflagged)

lemma path_loop_st_unflagged:
  "list_all (\<lambda>(cat, Rs). list_all (\<lambda>R. \<not> re_global R \<and> \<not> re_sticky R) Rs) entries \<Longrightarrow>
   path_loop_st entries installed filePath dets =
     (path_loop (map (\<lambda>(cat, Rs). (cat, map re_source Rs)) entries) installed filePath dets,
      entries)"
  by (induction entries arbitrary: dets) (auto simp: pattern_loop_st_unflagged)

lemma event_loop_st_unflagged:
  assumes "list_all (\<lambda>(cat, Rs). list_all (\<lambda>R. \<not> re_global R \<and> \<not> re_sticky R) Rs) entries"
    and "map (\<lambda>(cat, Rs). (cat, map re_source Rs)) entries = DOMAIN_FILE_PATTERNS"
  shows "event_loop_st evs installed results entries =
           (event_loop evs installed results, entries)"
  by (induction evs arbitrary: results)
     (simp_all add: path_loop_st_unflagged [OF assms(1)] assms(2) event_detections_def)

lemma initial_patterns_unflagged:
  "list_all (\<lambda>(cat, Rs). list_all (\<lambda>R. \<not> re_global R \<and> \<not> re_sticky R) Rs)
     (filePatterns initial_state)"
  by (simp add: initial_state_def list_all_iff case_prod_beta)

lemma initial_patterns_sources:
  "map (\<lambda>(cat, Rs). (cat, map re_source Rs)) (filePatterns initial_state) = DOMAIN_FILE_PATTERNS"
  by (simp add: initial_state_def comp_def case_prod_beta)

lemma categorizePackage_in_module:
  "categorizePackage_in packageToCategory name = categorizePackage name"
  by (simp add: categorizePackage_in_def categorizePackage_def)

lemma add_packages_in_module:
  "add_packages_in packageToCategory pkgs installed = add_packages pkgs installed"
  by (induction pkgs arbitrary: installed) (simp_all add: categorizePackage_in_module)

lemma collect_installed_in_module:
  "collect_installed_in packageToCategory evs installed = collect_installed evs installed"
  by (induction evs arbitrary: installed) (simp_all add: add_packages_in_module)

text \<open>
  Claim C8. Started in the state that the module bodies leave, a call of
  \<open>detectCustomImplementation\<close> or of \<open>categorizePackage\<close> returns what the function of
  its argument gives and leaves that state as it is: no pattern of
  \<open>DOMAIN_FILE_PATTERNS\<close> has the \<open>g\<close> or the \<open>y\<close> flag, so no call of \<open>test\<close> moves a
  \<open>lastIndex\<close>, and the map is only read. Hence a second call on the same data, after
  the first, returns the same output.
\<close>

theorem C8_deterministic:
  "detectCustomImplementation_st initial_state evs =
     (detectCustomImplementation evs, initial_state) \<and>
   categorizePackage_st initial_state name = (categorizePackage name, initial_state) \<and>
   fst (detectCustomImplementation_st (snd (detectCustomImplementation_st initial_state evs)) evs) =
     fst (detectCustomImplementation_st initial_state evs) \<and>
   fst (categorizePackage_st (snd (categorizePackage_st initial_state name)) name) =
     fst (categorizePackage_st initial_state name)"
proof -
  have pm: "packageMap initial_state = packageToCategory" by (simp add: initial_state_def)
  have e: "event_loop_st evs installed [] (filePatterns initial_state) =
             (event_loop evs installed [], filePatterns initial_state)" for installed
    by (rule event_loop_st_unflagged [OF initial_patterns_unflagged initial_patterns_sources])
  have d: "detectCustomImplementation_st initial_state evs =
             (detectCustomImplementation evs, initial_state)"
    by (simp add: detectCustomImplementation_st_def detectCustomImplementation_def e pm
        collect_installed_in_module)
  have c: "categorizePackage_st initial_state name = (categorizePackage name, initial_state)"
    by (simp add: categorizePackage_st_def categorizePackage_in_module pm)
  show ?thesis by (simp add: d c)
qed

section \<open>The summary of build versus buy\<close>

lemma pow2_pos: "0 < pow2 k"
  by (simp add: pow2_def)

lemma pow2_add: "pow2 (a + b) = pow2 a * pow2 b"
proof -
  have "pow2 k = 2 powi k" for k
    by (simp add: pow2_def power_int_def field_simps)
  then show ?thesis by (simp add: power_int_add)
qed

lemma round_half_even_err: "\<bar>of_int (round_half_even m) - m\<bar> \<le> 1 / 2"
  unfolding round_half_even_def Let_def by (auto simp: abs_if; linarith)

lemma binade_le:
  assumes "0 < x"
  shows "pow2 (binade x) \<le> x"
proof -
  obtain p q where pq: "quotient_of x = (p, q)" by (cases "quotient_of x")
  have q: "0 < q" using pq by (rule quotient_of_denom_pos)
  have x: "x = of_int p / of_int q" using pq by (rule quotient_of_div)
  have p: "0 < p" using assms q unfolding x by (simp add: zero_less_divide_iff)
  define e where "e = bitlen p - bitlen q"
  have b: "binade x = (if pow2 e \<le> x then e else e - 1)"
    by (simp add: binade_def pq e_def Let_def)
  have bp: "1 \<le> bitlen p" using p by (simp add: bitlen_alt_def)
  have bq: "1 \<le> bitlen q" using q by (simp add: bitlen_alt_def)
  have "2 ^ nat (bitlen p - 1) \<le> p" using bitlen_bounds [OF p] by simp
  then have lo: "(2::rat) ^ nat (bitlen p - 1) \<le> of_int p"
    by (metis of_int_le_iff of_int_numeral of_int_power)
  have "q < 2 ^ nat (bitlen q)" using bitlen_bounds [OF q] by simp
  then have hi: "of_int q < (2::rat) ^ nat (bitlen q)"
    by (metis of_int_less_iff of_int_numeral of_int_power)
  have "e - 1 = (bitlen p - 1) + (- bitlen q)" by (simp add: e_def)
  then have "pow2 (e - 1) = pow2 (bitlen p - 1) * pow2 (- bitlen q)"
    by (simp only: pow2_add)
  also have "\<dots> = 2 ^ nat (bitlen p - 1) / 2 ^ nat (bitlen q)"
    using bp bq by (simp add: pow2_def)
  also have "\<dots> \<le> of_int p / of_int q"
    using lo hi q p by (intro frac_le) simp_all
  finally have "pow2 (e - 1) \<le> x" unfolding x .
  then show ?thesis unfolding b by simp
qed

text \<open>The relative error of rounding to a double is at most \<open>2\<^sup>-\<^sup>5\<^sup>3\<close>.\<close>

lemma to_double_error:
  assumes "0 \<le> x"
  shows "\<bar>to_double x - x\<bar> \<le> x / 2 ^ 53"
proof (cases "x = 0")
  case True
  then show ?thesis by (simp add: to_double_def)
next
  case False
  then have pos: "0 < x" using assms by simp
  define s where "s = binade x - 52"
  define m where "m = x / pow2 s"
  define r where "r = round_half_even m"
  have ps: "0 < pow2 s" by (rule pow2_pos)
  have rn: "to_double x = of_int r * pow2 s"
    using pos
    by (simp add: to_double_def s_def [symmetric] m_def [symmetric] r_def [symmetric] Let_def)
  have xm: "x = m * pow2 s" using ps by (simp add: m_def)
  have "pow2 (int 52) = 2 ^ 52" unfolding pow2_def by simp
  then have "pow2 (binade x) = pow2 s * 2 ^ 52"
    unfolding s_def using pow2_add [of "binade x - 52" "int 52"] by simp
  then have "pow2 s * 2 ^ 52 \<le> x" using binade_le [OF pos] by simp
  then have half: "pow2 s / 2 \<le> x / 2 ^ 53" by simp
  have "to_double x - x = of_int r * pow2 s - m * pow2 s"
    unfolding rn using xm by simp
  also have "\<dots> = (of_int r - m) * pow2 s" by (simp add: left_diff_distrib)
  finally have "\<bar>to_double x - x\<bar> = \<bar>of_int r - m\<bar> * pow2 s"
    using ps by (simp add: abs_mult)
  also have "\<dots> \<le> 1 / 2 * pow2 s"
    using round_half_even_err [of m] ps unfolding r_def by (intro mult_right_mono) simp_all
  also have "\<dots> \<le> x / 2 ^ 53" using half by simp
  finally show ?thesis .
qed

text \<open>The double that \<open>(customCount / total) * 10000\<close> computes is nearer than \<open>2\<^sup>-\<^sup>3\<^sup>4\<close> to
  the exact value.\<close>

lemma scaled_share_close:
  assumes c: "c \<le> t" and t: "0 < t"
  defines "v \<equiv> Number_mul (Number_div (of_nat c) (of_nat t)) 10000"
  shows "v - percentage c t * 100 < 1 / 2 ^ 34" and "percentage c t * 100 - v < 1 / 2 ^ 34"
proof -
  define x :: rat where "x = of_nat c / of_nat t"
  define a where "a = to_double x"
  define u :: rat where "u = 1 / 2 ^ 53"
  have v: "v = to_double (a * 10000)"
    by (simp add: v_def Number_mul_def Number_div_def a_def x_def)
  have X: "percentage c t * 100 = x * 10000" by (simp add: percentage_def x_def)
  have x0: "0 \<le> x" and x1: "x \<le> 1" using t c by (simp_all add: x_def)
  have u0: "0 \<le> u" and u1: "u \<le> 1" by (simp_all add: u_def)
  have ea: "\<bar>a - x\<bar> \<le> x * u" using to_double_error [OF x0] by (simp add: a_def u_def)
  have xu: "x * u \<le> u" using mult_right_mono [OF x1 u0] by simp
  have xux: "x * u \<le> x" using mult_left_mono [OF u1 x0] by simp
  have a0: "0 \<le> a" using ea xux by linarith
  have a1: "a \<le> 1 + u" using ea xu x1 by linarith
  have "0 \<le> a * 10000" using a0 by simp
  then have ev: "\<bar>v - a * 10000\<bar> \<le> a * 10000 * u"
    using to_double_error [of "a * 10000"] by (simp add: v u_def)
  have "a * 10000 * u \<le> (1 + u) * 10000 * u"
    using a1 u0 by (intro mult_right_mono) simp_all
  with ev have ev': "\<bar>v - a * 10000\<bar> \<le> (1 + u) * 10000 * u" by linarith
  have ea2: "a - x \<le> u" "x - a \<le> u" using ea xu by linarith+
  have ev2: "v - a * 10000 \<le> (1 + u) * 10000 * u" "a * 10000 - v \<le> (1 + u) * 10000 * u"
    using ev' by linarith+
  have small: "(1 + u) * 10000 * u + 10000 * u < 1 / 2 ^ 34" by (simp add: u_def)
  show "v - percentage c t * 100 < 1 / 2 ^ 34" "percentage c t * 100 - v < 1 / 2 ^ 34"
    unfolding X using ea2 ev2 small by linarith+
qed

text \<open>Away from a tie, \<open>Math.round\<close> of the computed double is the exact value rounded half
  up.\<close>

lemma Math_round_no_tie:
  assumes c: "c \<le> t" and t: "0 < t" "t < 2 ^ 33"
    and notie: "\<not> halfway (percentage c t * 100)"
  shows "Math_round (Number_mul (Number_div (of_nat c) (of_nat t)) 10000) =
         \<lfloor>percentage c t * 100 + 1 / 2\<rfloor>"
proof -
  define v where "v = Number_mul (Number_div (of_nat c) (of_nat t)) 10000"
  define X where "X = percentage c t * 100"
  define N :: int where "N = int (20000 * c + t)"
  define D :: int where "D = int (2 * t)"
  define n where "n = N div D"
  have close: "v - X < 1 / 2 ^ 34" "X - v < 1 / 2 ^ 34"
    unfolding v_def X_def using scaled_share_close [OF c t(1)] by simp_all
  have Dpos: "0 < D" using t by (simp add: D_def)
  have "D < 2 ^ 34" using t by (simp add: D_def)
  then have "(of_int D :: rat) < 2 ^ 34"
    by (metis of_int_less_iff of_int_numeral of_int_power)
  then have gap: "1 / 2 ^ 34 < 1 / (of_int D :: rat)"
    using Dpos by (simp add: field_simps)
  have Y: "X + 1 / 2 = of_int N / of_int D"
    using t by (simp add: X_def percentage_def N_def D_def field_simps)
  have "N = D * n + N mod D" by (simp add: n_def)
  then have "(of_int N :: rat) = of_int D * of_int n + of_int (N mod D)"
    by (metis of_int_add of_int_mult)
  then have Yn: "of_int N / of_int D = (of_int n :: rat) + of_int (N mod D) / of_int D"
    using Dpos by (simp add: field_simps)
  have fl: "\<lfloor>X + 1 / 2\<rfloor> = n"
    unfolding Y n_def by (rule floor_divide_of_int_eq)
  have m0: "N mod D \<noteq> 0"
  proof
    assume "N mod D = 0"
    then have "X + 1 / 2 = of_int n" using Y Yn by simp
    then have Xn: "X = of_int (n - 1) + 1 / 2" by simp
    then have "\<lfloor>X\<rfloor> = n - 1" by (simp add: floor_unique)
    with Xn have "halfway X" by (simp add: halfway_def)
    with notie show False by (simp add: X_def)
  qed
  have "0 \<le> N mod D" "N mod D < D" using Dpos by simp_all
  with m0 have m1: "1 \<le> N mod D" "N mod D \<le> D - 1" by simp_all
  have "(1 :: rat) \<le> of_int (N mod D)" using m1(1) by simp
  then have lo: "1 / (of_int D :: rat) \<le> of_int (N mod D) / of_int D"
    using Dpos by (simp add: divide_right_mono)
  have "(of_int (N mod D) :: rat) \<le> of_int D - 1"
    using m1(2) by (metis of_int_1 of_int_diff of_int_le_iff)
  then have "of_int (N mod D) / (of_int D :: rat) \<le> (of_int D - 1) / of_int D"
    using Dpos by (simp add: divide_right_mono)
  also have "\<dots> = 1 - 1 / of_int D" using Dpos by (simp add: field_simps)
  finally have hi: "of_int (N mod D) / (of_int D :: rat) \<le> 1 - 1 / of_int D" .
  have "of_int n \<le> v + 1 / 2" "v + 1 / 2 < of_int n + 1"
    using close gap lo hi Y Yn by linarith+
  then have "\<lfloor>v + 1 / 2\<rfloor> = n" by (simp add: floor_unique)
  then show ?thesis
    unfolding Math_round_def v_def [symmetric] X_def [symmetric] using fl by simp
qed

text \<open>At a tie it is that value or the integer below.\<close>

lemma Math_round_tie:
  assumes c: "c \<le> t" and t: "0 < t"
    and tie: "halfway (percentage c t * 100)"
  shows "Math_round (Number_mul (Number_div (of_nat c) (of_nat t)) 10000) =
           \<lfloor>percentage c t * 100 + 1 / 2\<rfloor> \<or>
         Math_round (Number_mul (Number_div (of_nat c) (of_nat t)) 10000) =
           \<lfloor>percentage c t * 100 + 1 / 2\<rfloor> - 1"
proof -
  define v where "v = Number_mul (Number_div (of_nat c) (of_nat t)) 10000"
  define X where "X = percentage c t * 100"
  define n where "n = \<lfloor>X\<rfloor> + 1"
  have close: "v - X < 1 / 2 ^ 34" "X - v < 1 / 2 ^ 34"
    unfolding v_def X_def using scaled_share_close [OF c t] by simp_all
  have Xn: "X + 1 / 2 = of_int n" using tie by (simp add: halfway_def X_def n_def)
  then have fl: "\<lfloor>X + 1 / 2\<rfloor> = n" by simp
  have "(1::rat) / 2 ^ 34 < 1" by simp
  then have b: "of_int (n - 1) \<le> v + 1 / 2" "v + 1 / 2 < of_int (n + 1)"
    using close Xn by simp_all
  have "n - 1 \<le> \<lfloor>v + 1 / 2\<rfloor>" using b(1) by (simp only: le_floor_iff)
  moreover have "\<lfloor>v + 1 / 2\<rfloor> < n + 1" using b(2) by (simp only: floor_less_iff)
  ultimately have "\<lfloor>v + 1 / 2\<rfloor> = n \<or> \<lfloor>v + 1 / 2\<rfloor> = n - 1" by linarith
  then show ?thesis
    unfolding Math_round_def v_def [symmetric] X_def [symmetric] fl .
qed


text \<open>The loop pushes one entry for each category that has a count, in the order of the
  taxonomy.\<close>

lemma summary_loop_entries:
  "summary_loop cats customBuilds installEvents acc =
     acc @ map (summary_entry customBuilds installEvents)
             (filter (\<lambda>c. 0 < install_count installEvents c + custom_count customBuilds c) cats)"
proof (induction cats arbitrary: acc)
  case Nil
  show ?case by simp
next
  case (Cons c cats)
  show ?case
    by (simp add: Cons.IH Let_def summary_entry_def custom_count_def install_count_def)
qed

lemma set_insert_by: "set (insert_by cmp x ys) = insert x (set ys)"
  by (induction ys) auto

lemma set_Array_sort: "set (Array_sort cmp xs) = set xs"
  by (induction xs) (auto simp: Array_sort_def set_insert_by)

lemma distinct_map_insert_by:
  "distinct (map f (insert_by cmp x ys)) = (f x \<notin> f ` set ys \<and> distinct (map f ys))"
  by (induction ys) (auto simp: set_insert_by)

lemma distinct_map_Array_sort: "distinct (map f (Array_sort cmp xs)) = distinct (map f xs)"
  by (induction xs)
    (auto simp: Array_sort_def distinct_map_insert_by set_Array_sort [unfolded Array_sort_def])

lemma sorted_insert_by:
  assumes "sorted_wrt (\<lambda>a b. total_count b \<le> total_count a) ys"
  shows "sorted_wrt (\<lambda>a b. total_count b \<le> total_count a)
           (insert_by (\<lambda>a b. int (total_count b) - int (total_count a)) x ys)"
  using assms by (induction ys) (auto simp: set_insert_by)

lemma sorted_Array_sort:
  "sorted_wrt (\<lambda>a b. total_count b \<le> total_count a)
     (Array_sort (\<lambda>a b. int (total_count b) - int (total_count a)) xs)"
  by (induction xs) (simp_all add: Array_sort_def sorted_insert_by)

lemma categories_distinct: "distinct (map fst TOOL_CATEGORIES)"
  by (simp add: TOOL_CATEGORIES_def)

lemma summary_sorted_entries:
  "getBuildVsBuySummary cb ie =
     Array_sort (\<lambda>a b. int (total_count b) - int (total_count a))
       (map (summary_entry cb ie)
          (filter (\<lambda>c. 0 < install_count ie c + custom_count cb c) (map fst TOOL_CATEGORIES)))"
  by (simp add: getBuildVsBuySummary_def summary_loop_entries)

lemma set_summary:
  "set (getBuildVsBuySummary cb ie) =
     summary_entry cb ie `
       {c \<in> set (map fst TOOL_CATEGORIES). 0 < install_count ie c + custom_count cb c}"
  by (simp only: summary_sorted_entries set_Array_sort set_map set_filter)

lemma sum_category_entry: "sum_category (summary_entry cb ie c) = c"
  by (simp add: summary_entry_def)

lemma install_count_le: "install_count ie c \<le> length ie"
  by (simp add: install_count_def)

lemma custom_count_le: "custom_count cb c \<le> length cb"
  by (simp add: custom_count_def)

text \<open>The percentage of an entry: the exact share rounded to two decimals and then to a
  double, where an exact tie may fall to the lower hundredth.\<close>

lemma customBuildPct_entry:
  assumes pos: "0 < install_count ie c + custom_count cb c"
    and cb: "length cb < 2 ^ 32" and ie: "length ie < 2 ^ 32"
  defines "e \<equiv> summary_entry cb ie c"
  shows "customBuildPct e =
           to_double (round_2_decimals (percentage (customBuildCount e) (total_count e))) \<or>
         halfway (percentage (customBuildCount e) (total_count e) * 100) \<and>
         customBuildPct e =
           to_double (round_2_decimals (percentage (customBuildCount e) (total_count e))
                      - 1 / 100)"
proof -
  define k where "k = custom_count cb c"
  define t where "t = install_count ie c + custom_count cb c"
  have kt: "k \<le> t" by (simp add: k_def t_def)
  have t0: "0 < t" using pos by (simp add: t_def)
  have "install_count ie c < 2 ^ 32" "custom_count cb c < 2 ^ 32"
    using install_count_le [of ie c] custom_count_le [of cb c] cb ie by linarith+
  then have t1: "t < 2 ^ 33" by (simp add: t_def)
  have ck: "customBuildCount e = k" by (simp add: e_def summary_entry_def k_def)
  have tt: "total_count e = t" by (simp add: e_def summary_entry_def total_count_def t_def)
  have pct: "customBuildPct e =
      to_double (of_int (Math_round (Number_mul (Number_div (of_nat k) (of_nat t)) 10000)) / 100)"
    by (simp add: e_def summary_entry_def k_def t_def Number_div_def [of "of_int _"])
  have r2: "round_2_decimals (percentage k t) = of_int \<lfloor>percentage k t * 100 + 1 / 2\<rfloor> / 100"
    by (simp add: round_2_decimals_def)
  show ?thesis
  proof (cases "halfway (percentage k t * 100)")
    case False
    show ?thesis
      unfolding ck tt pct r2 Math_round_no_tie [OF kt t0 t1 False] by simp
  next
    case True
    from Math_round_tie [OF kt t0 True] show ?thesis
    proof
      assume "Math_round (Number_mul (Number_div (of_nat k) (of_nat t)) 10000) =
              \<lfloor>percentage k t * 100 + 1 / 2\<rfloor>"
      then show ?thesis unfolding ck tt pct r2 by simp
    next
      assume "Math_round (Number_mul (Number_div (of_nat k) (of_nat t)) 10000) =
              \<lfloor>percentage k t * 100 + 1 / 2\<rfloor> - 1"
      then have "customBuildPct e =
          to_double (round_2_decimals (percentage k t) - 1 / 100)"
        unfolding pct r2 by (simp add: diff_divide_distrib)
      with True show ?thesis unfolding ck tt by simp
    qed
  qed
qed

lemma quarter_pct:
  "Number_div (of_int (Math_round (Number_mul (Number_div 1 4) 10000))) 100 = 25"
  by code_simp

text \<open>
  Claim C3, with the rounding made precise. For all arrays of custom builds and of
  install events (a JavaScript array has fewer than \<open>2\<^sup>3\<^sup>2\<close> elements), the
  categories of the entries of
  \<open>getBuildVsBuySummary\<close> are the taxonomy categories whose install count plus custom
  build count is positive, each once; the entries are in descending order of that total;
  each entry carries the two counts of its category, and its \<open>customBuildPct\<close> is
  \<open>Math.round((customBuildCount / total) * 10000) / 100\<close> in double arithmetic: the
  double nearest to the share \<open>customBuildCount / total * 100\<close> rounded half up to two
  decimals, except that when the share times 100 lies exactly halfway between two
  integers the result may be the hundredth below. Whenever Authentication has 3 installs
  and 1 custom build the summary has the entry with the counts 3 and 1 and \<open>25.00\<close>.
\<close>

theorem C3_summary_rounded:
  assumes "length customBuilds < 2 ^ 32" and "length installEvents < 2 ^ 32"
  shows
    "set (map sum_category (getBuildVsBuySummary customBuilds installEvents)) =
       {c \<in> set (map fst TOOL_CATEGORIES).
          0 < install_count installEvents c + custom_count customBuilds c} \<and>
     distinct (map sum_category (getBuildVsBuySummary customBuilds installEvents)) \<and>
     sorted_wrt (\<lambda>a b. installCount b + customBuildCount b \<le> installCount a + customBuildCount a)
       (getBuildVsBuySummary customBuilds installEvents) \<and>
     (\<forall>e \<in> set (getBuildVsBuySummary customBuilds installEvents).
        installCount e = install_count installEvents (sum_category e) \<and>
        customBuildCount e = custom_count customBuilds (sum_category e) \<and>
        customBuildPct e =
          Number_div
            (of_int (Math_round
                       (Number_mul
                          (Number_div (of_nat (customBuildCount e))
                             (of_nat (installCount e + customBuildCount e)))
                          10000)))
            100 \<and>
        (customBuildPct e =
           to_double (round_2_decimals
                        (percentage (customBuildCount e) (installCount e + customBuildCount e))) \<or>
         halfway (percentage (customBuildCount e) (installCount e + customBuildCount e) * 100) \<and>
         customBuildPct e =
           to_double (round_2_decimals
                        (percentage (customBuildCount e) (installCount e + customBuildCount e))
                      - 1 / 100))) \<and>
     (install_count installEvents ''Authentication'' = 3 \<and>
      custom_count customBuilds ''Authentication'' = 1 \<longrightarrow>
        \<lparr>sum_category = ''Authentication'', installCount = 3, customBuildCount = 1,
         customBuildPct = 25\<rparr> \<in> set (getBuildVsBuySummary customBuilds installEvents))"
proof (intro conjI ballI impI)
  let ?S = "getBuildVsBuySummary customBuilds installEvents"
  let ?pos = "\<lambda>c. 0 < install_count installEvents c + custom_count customBuilds c"
  show "set (map sum_category ?S) = {c \<in> set (map fst TOOL_CATEGORIES). ?pos c}"
    unfolding set_map set_summary image_image sum_category_entry by simp
  have "distinct (filter ?pos (map fst TOOL_CATEGORIES))"
    using categories_distinct by (rule distinct_filter)
  then show "distinct (map sum_category ?S)"
    by (simp add: summary_sorted_entries distinct_map_Array_sort comp_def sum_category_entry)
  show "sorted_wrt (\<lambda>a b. installCount b + customBuildCount b \<le> installCount a + customBuildCount a) ?S"
    using sorted_Array_sort unfolding summary_sorted_entries total_count_def .
next
  fix e
  assume "e \<in> set (getBuildVsBuySummary customBuilds installEvents)"
  then obtain c where c: "0 < install_count installEvents c + custom_count customBuilds c"
    and e: "e = summary_entry customBuilds installEvents c"
    unfolding set_summary by auto
  show "installCount e = install_count installEvents (sum_category e)"
    by (simp add: e summary_entry_def)
  show "customBuildCount e = custom_count customBuilds (sum_category e)"
    by (simp add: e summary_entry_def)
  show "customBuildPct e =
          Number_div
            (of_int (Math_round
                       (Number_mul
                          (Number_div (of_nat (customBuildCount e))
                             (of_nat (installCount e + customBuildCount e)))
                          10000)))
            100"
    by (simp only: e summary_entry_def SummaryEntry.simps)
  show "customBuildPct e =
           to_double (round_2_decimals
                        (percentage (customBuildCount e) (installCount e + customBuildCount e))) \<or>
         halfway (percentage (customBuildCount e) (installCount e + customBuildCount e) * 100) \<and>
         customBuildPct e =
           to_double (round_2_decimals
                        (percentage (customBuildCount e) (installCount e + customBuildCount e))
                      - 1 / 100)"
    using customBuildPct_entry [OF c assms] unfolding e total_count_def .
next
  assume a: "install_count installEvents ''Authentication'' = 3 \<and>
      custom_count customBuilds ''Authentication'' = 1"
  have "''Authentication'' \<in> set (map fst TOOL_CATEGORIES)"
    by (simp add: TOOL_CATEGORIES_def)
  then have "summary_entry customBuilds installEvents ''Authentication''
      \<in> set (getBuildVsBuySummary customBuilds installEvents)"
    unfolding set_summary using a by simp
  moreover have "summary_entry customBuilds installEvents ''Authentication'' =
      \<lparr>sum_category = ''Authentication'', installCount = 3, customBuildCount = 1,
       customBuildPct = 25\<rparr>"
    using a quarter_pct by (simp add: summary_entry_def)
  ultimately show "\<lparr>sum_category = ''Authentication'', installCount = 3, customBuildCount = 1,
         customBuildPct = 25\<rparr> \<in> set (getBuildVsBuySummary customBuilds installEvents)"
    by simp
qed


theorem C3_summary_rounded_witness:
  "set (map sum_category
          (getBuildVsBuySummary [custom_build ''Authentication'']
             [\<lparr>packageName = Some ''jsonwebtoken'', inst_category = None\<rparr>,
              \<lparr>packageName = Some ''bcrypt'', inst_category = Some ''Authentication''\<rparr>,
              \<lparr>packageName = None, inst_category = Some ''Authentication''\<rparr>])) =
     {''Authentication''} \<and>
   \<lparr>sum_category = ''Authentication'', installCount = 3, customBuildCount = 1,
    customBuildPct = 25\<rparr>
     \<in> set (getBuildVsBuySummary [custom_build ''Authentication'']
             [\<lparr>packageName = Some ''jsonwebtoken'', inst_category = None\<rparr>,
              \<lparr>packageName = Some ''bcrypt'', inst_category = Some ''Authentication''\<rparr>,
              \<lparr>packageName = None, inst_category = Some ''Authentication''\<rparr>]) \<and>
   \<not> halfway (percentage 1 (3 + 1) * 100) \<and>
   to_double (round_2_decimals (percentage 1 (3 + 1))) = 25"
proof -
  let ?cb = "[custom_build ''Authentication'']"
  let ?ie = "[\<lparr>packageName = Some ''jsonwebtoken'', inst_category = None\<rparr>,
              \<lparr>packageName = Some ''bcrypt'', inst_category = Some ''Authentication''\<rparr>,
              \<lparr>packageName = None, inst_category = Some ''Authentication''\<rparr>]"
  let ?e = "\<lparr>sum_category = ''Authentication'', installCount = 3, customBuildCount = 1,
    customBuildPct = 25\<rparr>"
  have jwt: "categorizePackage ''jsonwebtoken'' = Some ''Authentication''" by code_simp
  have bcrypt: "categorizePackage ''bcrypt'' = Some ''Authentication''" by code_simp
  have len: "length ?cb < 2 ^ 32" "length ?ie < 2 ^ 32" by simp_all
  note th = C3_summary_rounded [OF len]
  have counts: "filter (\<lambda>c. 0 < install_count ?ie c + custom_count ?cb c)
      (map fst TOOL_CATEGORIES) = [''Authentication'']"
    by (simp add: TOOL_CATEGORIES_def install_count_def custom_count_def install_counts_for_def
        custom_build_def jwt bcrypt)
  have cats: "set (map sum_category (getBuildVsBuySummary ?cb ?ie)) = {''Authentication''}"
    using th [THEN conjunct1] counts
    by (simp only: set_filter [symmetric] list.set)
  have three: "install_count ?ie ''Authentication'' = 3 \<and>
      custom_count ?cb ''Authentication'' = 1"
    by (simp add: install_count_def custom_count_def install_counts_for_def custom_build_def jwt
        bcrypt)
  have mem: "?e \<in> set (getBuildVsBuySummary ?cb ?ie)"
    using th [THEN conjunct2, THEN conjunct2, THEN conjunct2, THEN conjunct2, rule_format,
        OF three] .
  have nh: "\<not> halfway (percentage 1 (3 + 1) * 100)"
    by (simp add: halfway_def percentage_def)
  have "customBuildPct ?e =
           to_double (round_2_decimals
                        (percentage (customBuildCount ?e) (installCount ?e + customBuildCount ?e))) \<or>
         halfway (percentage (customBuildCount ?e) (installCount ?e + customBuildCount ?e) * 100) \<and>
         customBuildPct ?e =
           to_double (round_2_decimals
                        (percentage (customBuildCount ?e) (installCount ?e + customBuildCount ?e))
                      - 1 / 100)"
    using th [THEN conjunct2, THEN conjunct2, THEN conjunct2, THEN conjunct1, rule_format,
        OF mem, THEN conjunct2, THEN conjunct2, THEN conjunct2] .
  then have "to_double (round_2_decimals (percentage 1 (3 + 1))) = 25"
    using nh by simp
  with cats mem nh show ?thesis by blast
qed

lemma count_replicate:
  "length (filter P (replicate n x)) = (if P x then n else 0)"
  by simp

lemma tie_down_pct:
  "Number_div (of_int (Math_round (Number_mul (Number_div 57 800) 10000))) 100 =
     to_double (712 / 100)"
  by code_simp

lemma tie_up_pct:
  "Number_div (of_int (Math_round (Number_mul (Number_div 1 32) 10000))) 100 =
     to_double (313 / 100)"
  by code_simp

text \<open>
  Claim C3 as the specification words it does not hold. With 57 custom builds and 743
  installs of Authentication the share is exactly \<open>7.125\<close> percent, which rounds half up
  to \<open>7.13\<close>; the division gives a double just below \<open>0.07125\<close>, the product with
  \<open>10000\<close> one just below \<open>712.5\<close>, and the summary says \<open>7.12\<close>. Rounding ties down or
  to even is not what the code does either: with 1 custom build and 31 installs the share
  is \<open>3.125\<close> percent and the summary says \<open>3.13\<close>.
\<close>

theorem C3_tie_rounded_down:
  "getBuildVsBuySummary (replicate 57 (custom_build ''Authentication''))
     (replicate 743 \<lparr>packageName = None, inst_category = Some ''Authentication''\<rparr>) =
     [\<lparr>sum_category = ''Authentication'', installCount = 743, customBuildCount = 57,
       customBuildPct = to_double (712 / 100)\<rparr>] \<and>
   percentage 57 (743 + 57) = 7125 / 1000 \<and>
   round_2_decimals (percentage 57 (743 + 57)) = 713 / 100 \<and>
   to_double (712 / 100) < 7125 / 1000 \<and>
   to_double (712 / 100) \<noteq> to_double (713 / 100) \<and>
   getBuildVsBuySummary (replicate 1 (custom_build ''Authentication''))
     (replicate 31 \<lparr>packageName = None, inst_category = Some ''Authentication''\<rparr>) =
     [\<lparr>sum_category = ''Authentication'', installCount = 31, customBuildCount = 1,
       customBuildPct = to_double (313 / 100)\<rparr>] \<and>
   percentage 1 (31 + 1) = 3125 / 1000 \<and>
   to_double (313 / 100) \<noteq> to_double (312 / 100)"
proof (intro conjI)
  have counts: "filter (\<lambda>c. 0 < install_count (replicate n
          \<lparr>packageName = None, inst_category = Some ''Authentication''\<rparr>) c +
        custom_count (replicate k (custom_build ''Authentication'')) c)
      (map fst TOOL_CATEGORIES) = [''Authentication'']" if "0 < n" for n k
    using that
    by (simp add: TOOL_CATEGORIES_def install_count_def custom_count_def install_counts_for_def
        custom_build_def)
  show "getBuildVsBuySummary (replicate 57 (custom_build ''Authentication''))
     (replicate 743 \<lparr>packageName = None, inst_category = Some ''Authentication''\<rparr>) =
     [\<lparr>sum_category = ''Authentication'', installCount = 743, customBuildCount = 57,
       customBuildPct = to_double (712 / 100)\<rparr>]"
    unfolding summary_sorted_entries counts [of 743 57, OF zero_less_numeral]
    by (simp add: Array_sort_def summary_entry_def install_count_def custom_count_def
        install_counts_for_def custom_build_def tie_down_pct)
  show "getBuildVsBuySummary (replicate 1 (custom_build ''Authentication''))
     (replicate 31 \<lparr>packageName = None, inst_category = Some ''Authentication''\<rparr>) =
     [\<lparr>sum_category = ''Authentication'', installCount = 31, customBuildCount = 1,
       customBuildPct = to_double (313 / 100)\<rparr>]"
    unfolding summary_sorted_entries counts [of 31 1, OF zero_less_numeral]
    by (simp add: Array_sort_def summary_entry_def install_count_def custom_count_def
        install_counts_for_def custom_build_def tie_up_pct)
  show "percentage 57 (743 + 57) = 7125 / 1000" by (simp add: percentage_def)
  show "round_2_decimals (percentage 57 (743 + 57)) = 713 / 100" by code_simp
  show "to_double (712 / 100) < 7125 / 1000" by code_simp
  show "to_double (712 / 100) \<noteq> to_double (713 / 100)" by code_simp
  show "percentage 1 (31 + 1) = 3125 / 1000" by (simp add: percentage_def)
  show "to_double (313 / 100) \<noteq> to_double (312 / 100)" by code_simp
qed

section \<open>Properties of the install hook\<close>

lemma logDecision_files [simp]: "files (logDecision en act pkg w) = files w"
  by (simp add: logDecision_def)

lemma call_api_codes:
  "fst (call_api en w sid m) = None \<or> fst (call_api en w sid m) = Some 0 \<or>
   fst (call_api en w sid m) = Some 2"
  by (simp add: call_api_def Let_def split: fetch_outcome.splits option.splits sum.splits)

lemma call_api_Some: "call_api en w sid m = (Some c, w') \<Longrightarrow> c = 0 \<or> c = 2"
  using call_api_codes [of en w sid m] by simp

lemma call_api_block:
  assumes "call_api en w sid m = (Some 2, w')"
  shows "\<exists>evaluation verdict w1.
           fetch_result en = Response True (Some evaluation) \<and>
           get_prop evaluation ''verdict'' = Inr verdict \<and>
           verdict \<noteq> Some (JStr ''PROCEED'') \<and>
           \<not> formatEvaluationCard_throws en evaluation \<and>
           markAllowed en w sid (im_packageName m) = Inr w1 \<and>
           files w' = files w1"
  using assms
  by (auto simp: call_api_def Let_def
      split: fetch_outcome.splits option.splits sum.splits if_splits)

lemma main_codes: "fst (main en w) = 0 \<or> fst (main en w) = 2"
proof (cases "stdin en")
  case (Parsed h)
  show ?thesis
  proof (cases "main_parsed en w h")
    case (Inl err)
    with Parsed show ?thesis by (simp add: main_def)
  next
    case (Inr r)
    have "fst r = 0 \<or> fst r = 2"
      using Inr
      by (auto simp: main_parsed_def Let_def dest: call_api_Some
          split: sum.splits if_splits json.splits option.splits prod.splits)
    with Parsed Inr show ?thesis by (simp add: main_def)
  qed
qed (simp_all add: main_def)

lemma main_block:
  assumes "main en w = (2, w')"
  shows "\<exists>h c m sid.
           stdin en = Parsed h \<and>
           get_prop h ''tool_name'' = Inr (Some (JStr ''Bash'')) \<and>
           opt_prop (opt_prop (Some h) ''tool_input'') ''command'' = Some (JStr c) \<and>
           c \<noteq> [] \<and>
           matchInstallCommand en c = Some m \<and>
           getSessionId en h = Inr sid \<and>
           \<not> isAlreadyAllowed en w sid (im_packageName m) \<and>
           loadConfig en w \<noteq> None \<and>
           call_api en w sid m = (Some 2, w')"
proof (cases "stdin en")
  case (Parsed h)
  with assms have mp: "main_parsed en w h = Inr (2, w')"
    by (simp add: main_def split: sum.splits)
  show ?thesis
  proof (cases "opt_prop (opt_prop (Some h) ''tool_input'') ''command''")
    case None
    with mp show ?thesis
      by (simp add: main_parsed_def Let_def split: sum.splits if_splits)
  next
    case (Some cmd)
    with mp Parsed show ?thesis
      by (cases cmd)
        (auto simp: main_parsed_def Let_def
          split: sum.splits if_splits option.splits prod.splits)
  qed
qed (use assms in \<open>simp_all add: main_def\<close>)


lemma main_not_block:
  assumes "\<And>w'. main en w \<noteq> (2, w')"
  shows "fst (main en w) = 0"
  using main_codes [of en w] assms [of "snd (main en w)"] by (cases "main en w") auto

text \<open>
  Claim C6. The hook fails open. Its exit code is 0 or 2. It is 0 when the standard input
  cannot be read or parsed, when the tool is not \<open>Bash\<close>, when the command is not a
  string that an install pattern matches, when there is no configuration of the service,
  when the request fails or is aborted by the timer, when the response is not \<open>ok\<close> or
  its body is not JSON, and when the verdict is \<open>PROCEED\<close>; it is 0 as well when the
  card cannot be built from the evaluation and when the file of the allowed packages
  cannot be written. The exit code is 2 only when the service has answered \<open>ok\<close> with a
  verdict other than \<open>PROCEED\<close>.
\<close>

theorem C6_hook_fails_open:
  "(fst (main en w) = 0 \<or> fst (main en w) = 2) \<and>
   (stdin en = Unreadable \<or> stdin en = Unparsable \<longrightarrow> fst (main en w) = 0) \<and>
   (stdin en = Parsed h \<and> get_prop h ''tool_name'' \<noteq> Inr (Some (JStr ''Bash'')) \<longrightarrow>
      fst (main en w) = 0) \<and>
   (stdin en = Parsed h \<and>
    (\<forall>c. opt_prop (opt_prop (Some h) ''tool_input'') ''command'' = Some (JStr c) \<longrightarrow>
         matchInstallCommand en c = None) \<longrightarrow>
      fst (main en w) = 0) \<and>
   (loadConfig en w = None \<longrightarrow> fst (main en w) = 0) \<and>
   (fetch_result en = Aborted \<longrightarrow> fst (main en w) = 0) \<and>
   (fetch_result en = Response False body \<longrightarrow> fst (main en w) = 0) \<and>
   (fetch_result en = Response True None \<longrightarrow> fst (main en w) = 0) \<and>
   (fetch_result en = Response True (Some evaluation) \<and>
    get_prop evaluation ''verdict'' = Inr (Some (JStr ''PROCEED'')) \<longrightarrow>
      fst (main en w) = 0) \<and>
   (fetch_result en = Response True (Some evaluation) \<and>
    formatEvaluationCard_throws en evaluation \<longrightarrow>
      fst (main en w) = 0) \<and>
   ((\<forall>p. write_fails en p) \<longrightarrow> fst (main en w) = 0) \<and>
   (fst (main en w) = 2 \<longrightarrow>
      (\<exists>ev verdict. fetch_result en = Response True (Some ev) \<and>
                     get_prop ev ''verdict'' = Inr verdict \<and>
                     verdict \<noteq> Some (JStr ''PROCEED'')))"
proof (intro conjI impI)
  show "fst (main en w) = 0 \<or> fst (main en w) = 2" by (rule main_codes)
next
  assume "stdin en = Unreadable \<or> stdin en = Unparsable"
  then show "fst (main en w) = 0" by (auto simp: main_def)
next
  assume "stdin en = Parsed h \<and> get_prop h ''tool_name'' \<noteq> Inr (Some (JStr ''Bash''))"
  then show "fst (main en w) = 0"
    by (intro main_not_block notI) (auto dest!: main_block)
next
  assume "stdin en = Parsed h \<and>
    (\<forall>c. opt_prop (opt_prop (Some h) ''tool_input'') ''command'' = Some (JStr c) \<longrightarrow>
         matchInstallCommand en c = None)"
  then show "fst (main en w) = 0"
    by (intro main_not_block notI) (auto dest!: main_block)
next
  assume "loadConfig en w = None"
  then show "fst (main en w) = 0"
    by (intro main_not_block notI) (auto dest!: main_block)
next
  assume "fetch_result en = Aborted"
  then show "fst (main en w) = 0"
    by (intro main_not_block notI) (auto dest!: main_block call_api_block)
next
  assume "fetch_result en = Response False body"
  then show "fst (main en w) = 0"
    by (intro main_not_block notI) (auto dest!: main_block call_api_block)
next
  assume "fetch_result en = Response True None"
  then show "fst (main en w) = 0"
    by (intro main_not_block notI) (auto dest!: main_block call_api_block)
next
  assume "fetch_result en = Response True (Some evaluation) \<and>
    get_prop evaluation ''verdict'' = Inr (Some (JStr ''PROCEED''))"
  then show "fst (main en w) = 0"
    by (intro main_not_block notI) (auto dest!: main_block call_api_block)
next
  assume "fetch_result en = Response True (Some evaluation) \<and>
    formatEvaluationCard_throws en evaluation"
  then show "fst (main en w) = 0"
    by (intro main_not_block notI) (auto dest!: main_block call_api_block)
next
  assume "\<forall>p. write_fails en p"
  then show "fst (main en w) = 0"
    by (intro main_not_block notI)
      (auto dest!: main_block call_api_block simp: markAllowed_def Let_def)
next
  assume "fst (main en w) = 2"
  then have "main en w = (2, snd (main en w))" by (cases "main en w") simp
  from main_block [OF this] obtain sid m where
    "call_api en w sid m = (Some 2, snd (main en w))" by blast
  from call_api_block [OF this]
  show "\<exists>ev verdict. fetch_result en = Response True (Some ev) \<and>
                     get_prop ev ''verdict'' = Inr verdict \<and>
                     verdict \<noteq> Some (JStr ''PROCEED'')"
    by blast
qed

theorem C6_hook_fails_open_witness:
  "fst (main (sample_env\<lparr>stdin := Unreadable\<rparr>) sample_world) = 0 \<and>
   fst (main (sample_env\<lparr>stdin := Parsed (JObj [(''tool_name'', JStr ''Read'')])\<rparr>)
          sample_world) = 0 \<and>
   fst (main (sample_env\<lparr>stdin :=
                 Parsed (JObj [(''tool_name'', JStr ''Bash''),
                               (''tool_input'', JObj [(''command'', JStr ''ls -la'')])])\<rparr>)
          sample_world) = 0 \<and>
   fst (main sample_env (sample_world\<lparr>files := (\<lambda>p. None)\<rparr>)) = 0 \<and>
   fst (main (sample_env\<lparr>fetch_result := Aborted\<rparr>) sample_world) = 0 \<and>
   fst (main (sample_env\<lparr>fetch_result := Response False None\<rparr>) sample_world) = 0 \<and>
   fst (main (sample_env\<lparr>fetch_result := Response True None\<rparr>) sample_world) = 0 \<and>
   fst (main (sample_env\<lparr>fetch_result :=
                 Response True (Some (JObj [(''verdict'', JStr ''PROCEED'')]))\<rparr>)
          sample_world) = 0 \<and>
   fst (main (sample_env\<lparr>fetch_result :=
                 Response True (Some (JObj [(''verdict'', JStr ''SWITCH'')]))\<rparr>)
          sample_world) = 0 \<and>
   fst (main (sample_env\<lparr>write_fails := (\<lambda>p. True)\<rparr>) sample_world) = 0 \<and>
   fst (main sample_env sample_world) = 2 \<and>
   (\<exists>ev verdict. fetch_result sample_env = Response True (Some ev) \<and>
                  get_prop ev ''verdict'' = Inr verdict \<and>
                  verdict \<noteq> Some (JStr ''PROCEED''))"
proof -
  have c1: "fst (main (sample_env\<lparr>stdin := Unreadable\<rparr>) sample_world) = 0"
    using C6_hook_fails_open [of "sample_env\<lparr>stdin := Unreadable\<rparr>" sample_world]
    by simp
  have c2: "fst (main (sample_env\<lparr>stdin := Parsed (JObj [(''tool_name'', JStr ''Read'')])\<rparr>)
          sample_world) = 0"
    using C6_hook_fails_open
      [of "sample_env\<lparr>stdin := Parsed (JObj [(''tool_name'', JStr ''Read'')])\<rparr>" sample_world
          "JObj [(''tool_name'', JStr ''Read'')]"]
    by simp
  have nomatch: "match_managers [(''npm'', [hd installPatterns])] ''ls -la'' = None"
    by code_simp
  have c3: "fst (main (sample_env\<lparr>stdin :=
                 Parsed (JObj [(''tool_name'', JStr ''Bash''),
                               (''tool_input'', JObj [(''command'', JStr ''ls -la'')])])\<rparr>)
          sample_world) = 0"
    using C6_hook_fails_open
      [of "sample_env\<lparr>stdin :=
                 Parsed (JObj [(''tool_name'', JStr ''Bash''),
                               (''tool_input'', JObj [(''command'', JStr ''ls -la'')])])\<rparr>"
          sample_world
          "JObj [(''tool_name'', JStr ''Bash''),
                 (''tool_input'', JObj [(''command'', JStr ''ls -la'')])]"]
      nomatch
    by (simp add: matchInstallCommand_def sample_env_def)
  have c4: "fst (main sample_env (sample_world\<lparr>files := (\<lambda>p. None)\<rparr>)) = 0"
    using C6_hook_fails_open [of sample_env "sample_world\<lparr>files := (\<lambda>p. None)\<rparr>"]
    by (simp add: loadConfig_def)
  have c5: "fst (main (sample_env\<lparr>fetch_result := Aborted\<rparr>) sample_world) = 0"
    using C6_hook_fails_open [of "sample_env\<lparr>fetch_result := Aborted\<rparr>" sample_world]
    by simp
  have c6: "fst (main (sample_env\<lparr>fetch_result := Response False None\<rparr>) sample_world) = 0"
    using C6_hook_fails_open
      [of "sample_env\<lparr>fetch_result := Response False None\<rparr>" sample_world _ None]
    by simp
  have c7: "fst (main (sample_env\<lparr>fetch_result := Response True None\<rparr>) sample_world) = 0"
    using C6_hook_fails_open [of "sample_env\<lparr>fetch_result := Response True None\<rparr>" sample_world]
    by simp
  have c8: "fst (main (sample_env\<lparr>fetch_result :=
                 Response True (Some (JObj [(''verdict'', JStr ''PROCEED'')]))\<rparr>)
          sample_world) = 0"
    using C6_hook_fails_open
      [of "sample_env\<lparr>fetch_result :=
                 Response True (Some (JObj [(''verdict'', JStr ''PROCEED'')]))\<rparr>"
          sample_world _ _ "JObj [(''verdict'', JStr ''PROCEED'')]"]
    by simp
  have c11: "fst (main (sample_env\<lparr>fetch_result :=
                 Response True (Some (JObj [(''verdict'', JStr ''SWITCH'')]))\<rparr>)
          sample_world) = 0"
    using C6_hook_fails_open
      [of "sample_env\<lparr>fetch_result :=
                 Response True (Some (JObj [(''verdict'', JStr ''SWITCH'')]))\<rparr>"
          sample_world _ _ "JObj [(''verdict'', JStr ''SWITCH'')]"]
    by (simp add: formatEvaluationCard_throws_def)
  have c12: "fst (main (sample_env\<lparr>write_fails := (\<lambda>p. True)\<rparr>) sample_world) = 0"
    using C6_hook_fails_open [of "sample_env\<lparr>write_fails := (\<lambda>p. True)\<rparr>" sample_world]
    by simp
  have c9: "fst (main sample_env sample_world) = 2" by code_simp
  have c10: "\<exists>ev verdict. fetch_result sample_env = Response True (Some ev) \<and>
                  get_prop ev ''verdict'' = Inr verdict \<and>
                  verdict \<noteq> Some (JStr ''PROCEED'')"
    using C6_hook_fails_open [of sample_env sample_world] c9 by blast
  show ?thesis using c1 c2 c3 c4 c5 c6 c7 c8 c11 c12 c9 c10 by blast
qed

lemma markAllowed_then_allowed:
  assumes "markAllowed en w sid pkg = Inr w'" and "toLowerCase pkg' = toLowerCase pkg"
    and "tmpdir en' = tmpdir en" and "files w'' = files w'"
  shows "isAlreadyAllowed en' w'' sid pkg'"
  using assms
  by (auto simp: markAllowed_def isAlreadyAllowed_def getAllowedPath_def Let_def
      split: if_splits)

text \<open>
  Claim C10. Once \<open>markAllowed\<close> has stored a package for a session, \<open>isAlreadyAllowed\<close>
  answers \<open>true\<close> for that session and for every spelling of the name that differs in
  case only. Hence, when a run of the hook has blocked an install (exit code 2), a second
  run on the same input, from the files the first run left, exits with 0 and logs
  \<open>allowed_retry\<close> without asking the service, whatever the service, the
  configuration and the file system would answer now.
\<close>

theorem C10_second_attempt_allowed:
  "(markAllowed en w sid pkg = Inr w1 \<and> toLowerCase pkg' = toLowerCase pkg \<longrightarrow>
      isAlreadyAllowed en w1 sid pkg') \<and>
   (main en w = (2, w') \<and> stdin en' = stdin en \<and> tmpdir en' = tmpdir en \<and>
    sha256_hex en' = sha256_hex en \<and> INSTALL_PATTERNS en' = INSTALL_PATTERNS en \<longrightarrow>
      fst (main en' w') = 0 \<and>
      (\<exists>pkg. snd (main en' w') = logDecision en' ''allowed_retry'' pkg w'))"
proof (intro conjI impI)
  assume "markAllowed en w sid pkg = Inr w1 \<and> toLowerCase pkg' = toLowerCase pkg"
  then show "isAlreadyAllowed en w1 sid pkg'"
    using markAllowed_then_allowed [of en w sid pkg w1 pkg' en w1] by simp
next
  assume a: "main en w = (2, w') \<and> stdin en' = stdin en \<and> tmpdir en' = tmpdir en \<and>
    sha256_hex en' = sha256_hex en \<and> INSTALL_PATTERNS en' = INSTALL_PATTERNS en"
  then have first: "main en w = (2, w')" by simp
  from main_block [OF first] obtain h c m sid where
    h: "stdin en = Parsed h" "get_prop h ''tool_name'' = Inr (Some (JStr ''Bash''))"
      "opt_prop (opt_prop (Some h) ''tool_input'') ''command'' = Some (JStr c)"
      "matchInstallCommand en c = Some m" "getSessionId en h = Inr sid"
    and ne: "c \<noteq> []"
    and api: "call_api en w sid m = (Some 2, w')"
    by blast
  from call_api_block [OF api] obtain w1 where
    marked: "markAllowed en w sid (im_packageName m) = Inr w1" and fs: "files w' = files w1"
    by blast
  have allowed: "isAlreadyAllowed en' w' sid (im_packageName m)"
    using markAllowed_then_allowed [OF marked refl _ fs] a by simp
  have truthy: "js_truthy (opt_prop (opt_prop (Some h) ''tool_input'') ''command'')"
    using ne by (simp add: h(3))
  have m': "matchInstallCommand en' c = Some m"
    using h(4) a by (simp add: matchInstallCommand_def)
  have sha: "sha256_hex en' = sha256_hex en" using a by simp
  have "getSessionId en' h = getSessionId en h" unfolding getSessionId_def sha ..
  with h(5) have sid': "getSessionId en' h = Inr sid" by simp
  have "main en' w' = (0, logDecision en' ''allowed_retry'' (im_packageName m) w')"
    using a h(1,2,3) truthy m' sid' allowed
    by (simp add: main_def main_parsed_def Let_def)
  then show "fst (main en' w') = 0"
    and "\<exists>pkg. snd (main en' w') = logDecision en' ''allowed_retry'' pkg w'"
    by auto
qed


theorem C10_second_attempt_allowed_witness:
  "isAlreadyAllowed sample_env
     (sample_world\<lparr>files :=
        (files sample_world)
          (getAllowedPath sample_env ''0f1e2d3c4b5a'' := Some (JArr [JStr ''left-pad'']))\<rparr>)
     ''0f1e2d3c4b5a'' ''LEFT-PAD'' \<and>
   fst (main (sample_env\<lparr>fetch_result := Aborted\<rparr>) (snd (main sample_env sample_world))) = 0"
proof -
  have lower: "toLowerCase ''LEFT-PAD'' = toLowerCase ''Left-Pad''" by code_simp
  have lp: "toLowerCase ''Left-Pad'' = ''left-pad''" by code_simp
  have marked: "markAllowed sample_env sample_world ''0f1e2d3c4b5a'' ''Left-Pad'' =
      Inr (sample_world\<lparr>files :=
        (files sample_world)
          (getAllowedPath sample_env ''0f1e2d3c4b5a'' := Some (JArr [JStr ''left-pad'']))\<rparr>)"
    by (simp add: markAllowed_def Let_def lp sample_env_def sample_world_def getAllowedPath_def
        path_join_def)
  have blocked: "fst (main sample_env sample_world) = 2" by code_simp
  then have run: "main sample_env sample_world = (2, snd (main sample_env sample_world))"
    by (cases "main sample_env sample_world") simp
  note th = C10_second_attempt_allowed
      [of sample_env sample_world "''0f1e2d3c4b5a''" "''Left-Pad''" _ "''LEFT-PAD''"
          "snd (main sample_env sample_world)" "sample_env\<lparr>fetch_result := Aborted\<rparr>"]
  show ?thesis
    using th [THEN conjunct1, rule_format, OF conjI, OF marked lower]
      th [THEN conjunct2, rule_format, THEN conjunct1] run
    by simp
qed

end
